theory Spec2Isabelle
  imports Complex_Main "HOL-Library.Sublist" "HOL-Library.AList"
begin

section \<open>JavaScript strings\<close>

text \<open>
  A JavaScript string is modelled as a \<^typ>\<open>string\<close>: one \<^typ>\<open>char\<close> per code unit,
  for code units up to 255. The white space of \<^verbatim>\<open>String.prototype.trim\<close> and of the
  regular expression class \<^verbatim>\<open>\s\<close> is, in that range: tab, line feed, vertical tab, form
  feed, carriage return, space and the no-break space.
\<close>

definition is_space :: "char \<Rightarrow> bool" where
  "is_space c \<longleftrightarrow> c \<in> set [CHR 0x09, CHR 0x0A, CHR 0x0B, CHR 0x0C, CHR 0x0D, CHR '' '', CHR 0xA0]"

text \<open>\<^verbatim>\<open>s.trim()\<close>\<close>

definition trim :: "string \<Rightarrow> string" where
  "trim s = rev (dropWhile is_space (rev (dropWhile is_space s)))"

text \<open>\<^verbatim>\<open>s.startsWith(p)\<close>\<close>

definition startsWith :: "string \<Rightarrow> string \<Rightarrow> bool" where
  "startsWith s p = prefix p s"

text \<open>\<^verbatim>\<open>s.includes(sub)\<close>\<close>

fun js_includes :: "string \<Rightarrow> string \<Rightarrow> bool" where
  "js_includes [] sub = (sub = [])"
| "js_includes (c # cs) sub = (prefix sub (c # cs) \<or> js_includes cs sub)"

text \<open>
  \<open>cut_at sep s\<close> finds the first occurrence of the separator in \<open>s\<close> and returns what
  stands before it and what stands after it.
\<close>

fun cut_at :: "string \<Rightarrow> string \<Rightarrow> (string \<times> string) option" where
  "cut_at sep [] = (if sep = [] then Some ([], []) else None)"
| "cut_at sep (c # cs) =
     (if prefix sep (c # cs) then Some ([], drop (length sep) (c # cs))
      else (case cut_at sep cs of None \<Rightarrow> None | Some (b, a) \<Rightarrow> Some (c # b, a)))"

lemma cut_length: "cut_at sep s = Some (b, a) \<Longrightarrow> length b + length sep + length a = length s"
proof (induction s arbitrary: b)
  case Nil
  then show ?case by (simp split: if_splits)
next
  case (Cons c cs)
  show ?case
  proof (cases "prefix sep (c # cs)")
    case True
    then have "length sep \<le> length (c # cs)" by (rule prefix_length_le)
    with True Cons.prems show ?thesis by auto
  next
    case False
    with Cons.prems obtain b' where "cut_at sep cs = Some (b', a)" and "b = c # b'"
      by (auto split: option.splits)
    with Cons.IH [of b'] show ?thesis by simp
  qed
qed

text \<open>\<^verbatim>\<open>s.split(sep)\<close>: the pieces between the occurrences of the separator, left to right.\<close>

function js_split :: "string \<Rightarrow> string \<Rightarrow> string list" where
  "js_split s sep =
     (if sep = [] then map (\<lambda>c. [c]) s
      else (case cut_at sep s of None \<Rightarrow> [s] | Some (b, a) \<Rightarrow> b # js_split a sep))"
  by pat_completeness auto
termination
proof (relation "measure (\<lambda>(s, sep). length s)")
  show "wf (measure (\<lambda>(s, sep). length s))" by simp
next
  fix s sep :: string and x2 :: "string \<times> string" and b a :: string
  assume "sep \<noteq> []" and "cut_at sep s = Some x2" and "(b, a) = x2"
  then have "length b + length sep + length a = length s"
    using cut_length [of sep s b a] by simp
  with \<open>sep \<noteq> []\<close> show "((a, sep), (s, sep)) \<in> measure (\<lambda>(s, sep). length s)"
    by (cases sep) auto
qed

declare js_split.simps [simp del]

text \<open>\<^verbatim>\<open>xs[i]\<close>: \<open>None\<close> stands for \<^verbatim>\<open>undefined\<close>.\<close>

definition nth_opt :: "'a list \<Rightarrow> nat \<Rightarrow> 'a option" where
  "nth_opt xs i = (if i < length xs then Some (xs ! i) else None)"

text \<open>The decimal numeral of an index, as a template literal prints it.\<close>

definition digit_char :: "nat \<Rightarrow> char" where
  "digit_char d = ''0123456789'' ! d"

fun digits :: "nat \<Rightarrow> string" where
  "digits n = (if n < 10 then [digit_char n] else digits (n div 10) @ [digit_char (n mod 10)])"

declare digits.simps [simp del]

fun join :: "string \<Rightarrow> string list \<Rightarrow> string" where
  "join sep [] = []"
| "join sep [x] = x"
| "join sep (x # y # ys) = x @ sep @ join sep (y # ys)"

section \<open>JSON values\<close>

text \<open>
  What \<^verbatim>\<open>axios\<close> leaves in \<^verbatim>\<open>response.data\<close>: the parsed JSON of the body, or the body
  itself as a string when it is not JSON (an HTML page). An object is the list of its own
  properties, read with \<^const>\<open>map_of\<close>; the order of the list carries no meaning. What an
  object inherits is the same for all of them, \<^verbatim>\<open>Object.prototype\<close>.
\<close>

datatype json =
    JNull
  | JBool bool
  | JNum real
  | JStr string
  | JArr "json list"
  | JObj "(string \<times> json) list"

text \<open>\<open>Thrown\<close>: a JavaScript exception. \<open>Unmodelled\<close>: the program goes on with a value
  that is no JSON value (an array that carries named properties), which this model does
  not follow.\<close>

datatype fault = Thrown | Unmodelled

fun truthy :: "json \<Rightarrow> bool" where
  "truthy JNull = False"
| "truthy (JBool b) = b"
| "truthy (JNum r) = (r \<noteq> 0)"
| "truthy (JStr s) = (s \<noteq> [])"
| "truthy (JArr xs) = True"
| "truthy (JObj fs) = True"

text \<open>
  \<^verbatim>\<open>v.k\<close> for a value that is not \<^verbatim>\<open>null\<close> and a property name the program reads
  (\<^verbatim>\<open>products\<close>, \<^verbatim>\<open>collections\<close>, \<^verbatim>\<open>collection\<close>, \<^verbatim>\<open>blogs\<close>, \<^verbatim>\<open>articles\<close>,
  \<^verbatim>\<open>handle\<close>, \<^verbatim>\<open>content\<close>): arrays and primitive values have none of these, so the
  result is \<^verbatim>\<open>undefined\<close>, here \<open>None\<close>.
\<close>

fun field :: "json \<Rightarrow> string \<Rightarrow> json option" where
  "field (JObj fs) k = map_of fs k"
| "field v k = None"

text \<open>\<^verbatim>\<open>d && d.k\<close>, when it is truthy.\<close>

definition guarded :: "json \<Rightarrow> string \<Rightarrow> json option" where
  "guarded d k =
     (if truthy d then
        (case field d k of None \<Rightarrow> None | Some v \<Rightarrow> if truthy v then Some v else None)
      else None)"

text \<open>
  The string of a value inside a template literal, \<open>None\<close> when the conversion throws a
  \<^verbatim>\<open>TypeError\<close>. How a number prints is left to the parameter \<open>nts\<close>. An object prints
  through the \<^verbatim>\<open>toString\<close> it inherits, unless it has an own property of that name: a
  JSON value is no function, and the inherited \<^verbatim>\<open>valueOf\<close> returns the object itself, so
  the conversion throws. An array joins the strings of its items, \<^verbatim>\<open>null\<close> printing as the
  empty string, and throws when the conversion of an item throws.
\<close>

fun toString :: "(real \<Rightarrow> string) \<Rightarrow> json \<Rightarrow> string option" where
  "toString nts JNull = Some ''null''"
| "toString nts (JBool b) = Some (if b then ''true'' else ''false'')"
| "toString nts (JNum r) = Some (nts r)"
| "toString nts (JStr s) = Some s"
| "toString nts (JArr xs) =
     (case those (map (\<lambda>x. if x = JNull then Some [] else toString nts x) xs) of
        None \<Rightarrow> None
      | Some parts \<Rightarrow> Some (join '','' parts))"
| "toString nts (JObj fs) =
     (if map_of fs ''toString'' = None then Some ''[object Object]'' else None)"

text \<open>\<^verbatim>\<open>${v}\<close>, where \<open>v\<close> may be \<^verbatim>\<open>undefined\<close>.\<close>

definition interpolate :: "(real \<Rightarrow> string) \<Rightarrow> json option \<Rightarrow> string option" where
  "interpolate nts v = (case v of None \<Rightarrow> Some ''undefined'' | Some j \<Rightarrow> toString nts j)"

text \<open>The own enumerable properties of a value, which \<^verbatim>\<open>Object.assign\<close> copies from its
  source.\<close>

fun own_props :: "json \<Rightarrow> (string \<times> json) list" where
  "own_props (JObj fs) = fs"
| "own_props (JArr xs) = zip (map digits [0..<length xs]) xs"
| "own_props (JStr s) = zip (map digits [0..<length s]) (map (\<lambda>c. JStr [c]) s)"
| "own_props v = []"

text \<open>
  \<^verbatim>\<open>Object.assign(target, source)\<close> for a target that is an object sets each property of
  the source on the target. Setting makes or overwrites an own property, but for the name
  \<^verbatim>\<open>__proto__\<close> on a target with no own property of that name: there the setter that every
  object inherits runs, which may change what the target inherits and gives it no own
  property.
\<close>

definition assigned :: "(string \<times> json) list \<Rightarrow> json \<Rightarrow> (string \<times> json) list" where
  "assigned target source =
     filter (\<lambda>p. fst p \<noteq> ''__proto__'' \<or> map_of target ''__proto__'' \<noteq> None) (own_props source)"

definition assign :: "(string \<times> json) list \<Rightarrow> json \<Rightarrow> (string \<times> json) list" where
  "assign target source = AList.merge target (assigned target source)"

section \<open>Parsed markup\<close>

text \<open>
  The document \<^verbatim>\<open>cheerio.load\<close> builds: text nodes and elements with a tag name,
  attributes and children.
\<close>

datatype node =
    Text string
  | Element string "(string \<times> string) list" "node list"

text \<open>\<^verbatim>\<open>.text()\<close> of an element: the text of its descendants, in document order.\<close>

fun node_text :: "node \<Rightarrow> string" where
  "node_text (Text s) = s"
| "node_text (Element t as cs) = concat (map node_text cs)"

text \<open>\<^verbatim>\<open>.attr(k)\<close>\<close>

fun attr :: "node \<Rightarrow> string \<Rightarrow> string option" where
  "attr (Text s) k = None"
| "attr (Element t as cs) k = map_of as k"

text \<open>The elements of a subtree in document order.\<close>

fun elements :: "node \<Rightarrow> node list" where
  "elements (Text s) = []"
| "elements (Element t as cs) = Element t as cs # concat (map elements cs)"

fun is_tag :: "string \<Rightarrow> node \<Rightarrow> bool" where
  "is_tag t (Text s) = False"
| "is_tag t (Element t' as cs) = (t' = t)"

text \<open>\<^verbatim>\<open>$(selector)\<close> for a selector that tests each element on its own.\<close>

definition select :: "(node \<Rightarrow> bool) \<Rightarrow> node list \<Rightarrow> node list" where
  "select P doc = filter P (concat (map elements doc))"

text \<open>The selector \<^verbatim>\<open>a[href*="sub"]\<close>.\<close>

definition a_href_contains :: "string \<Rightarrow> node \<Rightarrow> bool" where
  "a_href_contains sub n =
     (is_tag ''a'' n \<and> (case attr n ''href'' of None \<Rightarrow> False | Some h \<Rightarrow> js_includes h sub))"

text \<open>\<^verbatim>\<open>.first().text()\<close> of a selection.\<close>

definition first_text :: "node list \<Rightarrow> string" where
  "first_text sel = (case sel of [] \<Rightarrow> [] | n # ns \<Rightarrow> node_text n)"

section \<open>The environment of a scrape\<close>

text \<open>
  \<open>StoreInfo\<close> and \<open>Aggregate\<close> are the objects \<^verbatim>\<open>fetchStoreInfo\<close> and \<^verbatim>\<open>handler\<close>
  build; \<open>socialLinks\<close> lists its keys in the order they were set.
\<close>

record StoreInfo =
  name :: string
  logo :: string
  favicon :: string
  address :: string
  email :: string
  phone :: string
  socialLinks :: "(string \<times> string) list"

record Aggregate =
  products :: json
  collections :: json
  blogs :: json
  articles :: "json list"
  storeInfo :: StoreInfo

text \<open>
  Each request the program sends is named by the place that sends it; a request inside
  a loop also by the round of the loop. So two requests for one URL may be answered
  differently.
\<close>

datatype site =
    Homepage
  | ProductsJson
  | CollectionsAllJson
  | CollectionsJson
  | CollectionDetail nat
  | CollectionsPage
  | BlogsJson
  | HomepageLinks
  | ArticlesJson nat

text \<open>
  What the program calls and the repository does not hold:
  \<^item> \<open>axios_get\<close>: the answer to a request, \<open>None\<close> when \<^verbatim>\<open>axios.get\<close> rejects (a network
    error or a status that is not 2xx), else \<^verbatim>\<open>response.data\<close>;
  \<^item> \<open>cheerio_load\<close>: the parsed document, \<open>None\<close> when \<^verbatim>\<open>cheerio.load\<close> throws;
  \<^item> \<open>number_text\<close>: how a number prints in a template literal;
  \<^item> \<open>pageFields\<close>: the record that lines 72 to 138 of \<^verbatim>\<open>fetchStoreInfo\<close> fill from the
    store URL, the parsed homepage and its raw text (name, logo, favicon, address, e-mail
    and phone, by selectors and regular expressions that the theorems below do not
    concern).
\<close>

record env =
  axios_get :: "site \<Rightarrow> string \<Rightarrow> json option"
  cheerio_load :: "json \<Rightarrow> node list option"
  number_text :: "real \<Rightarrow> string"
  pageFields :: "string \<Rightarrow> node list \<Rightarrow> string \<Rightarrow> StoreInfo"

section \<open>fetchStoreInfo\<close>

text \<open>
  The six regular expressions of \<^verbatim>\<open>socialPlatforms\<close> have one shape, a literal followed by
  \<^verbatim>\<open>[^"'\s]+\<close>; each is kept as its literal.
\<close>

definition socialPlatforms :: "(string \<times> string) list" where
  "socialPlatforms =
     [(''facebook'', ''facebook.com/''),
      (''instagram'', ''instagram.com/''),
      (''twitter'', ''twitter.com/''),
      (''pinterest'', ''pinterest.com/''),
      (''youtube'', ''youtube.com/''),
      (''tiktok'', ''tiktok.com/@'')]"

text \<open>A character of the class \<^verbatim>\<open>[^"'\s]\<close>.\<close>

definition token_char :: "char \<Rightarrow> bool" where
  "token_char c \<longleftrightarrow> c \<noteq> CHR 0x22 \<and> c \<noteq> CHR 0x27 \<and> \<not> is_space c"

text \<open>
  \<^verbatim>\<open>html.match(/lit[^"'\s]+/)\<close>: the leftmost place where the literal stands with at least
  one character of the class after it, and there the longest run of such characters;
  the result is \<^verbatim>\<open>match[0]\<close>.
\<close>

fun regex_match :: "string \<Rightarrow> string \<Rightarrow> string option" where
  "regex_match lit [] = None"
| "regex_match lit (c # cs) =
     (if prefix lit (c # cs) \<and> takeWhile token_char (drop (length lit) (c # cs)) \<noteq> []
      then Some (lit @ takeWhile token_char (drop (length lit) (c # cs)))
      else regex_match lit cs)"

text \<open>The loop over \<^verbatim>\<open>socialPlatforms\<close> (lines 150 to 156).\<close>

definition social_step :: "string \<Rightarrow> (string \<times> string) list \<Rightarrow> string \<times> string \<Rightarrow> (string \<times> string) list" where
  "social_step html links platform =
     (case regex_match (snd platform) html of
        None \<Rightarrow> links
      | Some url \<Rightarrow>
          AList.update (fst platform) (if startsWith url ''http'' then url else ''https://'' @ url) links)"

definition social_links :: "string \<Rightarrow> (string \<times> string) list" where
  "social_links html = foldl (social_step html) [] socialPlatforms"

definition unknownStore :: StoreInfo where
  "unknownStore =
     \<lparr>name = ''Unknown Store'', logo = [], favicon = [], address = [], email = [], phone = [],
      socialLinks = []\<rparr>"

text \<open>
  Whatever throws inside the \<^verbatim>\<open>try\<close> block ends in the default record. A body that is
  not a string throws at \<^verbatim>\<open>html.match\<close> at the latest.
\<close>

definition fetchStoreInfo :: "env \<Rightarrow> string \<Rightarrow> StoreInfo" where
  "fetchStoreInfo env storeUrl =
     (case axios_get env Homepage storeUrl of
        None \<Rightarrow> unknownStore
      | Some (JStr html) \<Rightarrow>
          (case cheerio_load env (JStr html) of
             None \<Rightarrow> unknownStore
           | Some doc \<Rightarrow> (pageFields env storeUrl doc html)\<lparr>socialLinks := social_links html\<rparr>)
      | Some other \<Rightarrow> unknownStore)"

section \<open>fetchProducts\<close>

definition fetchProducts :: "env \<Rightarrow> string \<Rightarrow> json" where
  "fetchProducts env storeUrl =
     (case axios_get env ProductsJson (storeUrl @ ''/products.json'') of
        Some data \<Rightarrow> (case guarded data ''products'' of Some ps \<Rightarrow> ps | None \<Rightarrow> JArr [])
      | None \<Rightarrow>
          (case axios_get env CollectionsAllJson (storeUrl @ ''/collections/all.json'') of
             Some data \<Rightarrow> (case guarded data ''products'' of Some ps \<Rightarrow> ps | None \<Rightarrow> JArr [])
           | None \<Rightarrow> JArr []))"

section \<open>fetchCollections\<close>

text \<open>
  One round of the loop of lines 223 to 239, for the collection at place \<open>i\<close> of the
  listing. Reading \<^verbatim>\<open>collection.handle\<close> of \<^verbatim>\<open>null\<close> throws inside the inner \<^verbatim>\<open>try\<close>,
  and again inside its \<^verbatim>\<open>catch\<close>, which prints the handle: that exception leaves the loop.
  So does a handle whose conversion to a string throws, at line 225 and again at line 236.
  A failed detail request, and an \<^verbatim>\<open>Object.assign\<close> that throws on a primitive target,
  are swallowed and leave the collection as it was.
\<close>

definition enrichCollection :: "env \<Rightarrow> string \<Rightarrow> nat \<Rightarrow> json \<Rightarrow> fault + json" where
  "enrichCollection env storeUrl i collection =
     (case collection of
        JNull \<Rightarrow> Inl Thrown
      | _ \<Rightarrow>
          (case interpolate (number_text env) (field collection ''handle'') of
             None \<Rightarrow> Inl Thrown
           | Some handle \<Rightarrow>
               (case axios_get env (CollectionDetail i)
                       (storeUrl @ ''/collections/'' @ handle @ ''.json'') of
                  None \<Rightarrow> Inr collection
                | Some data \<Rightarrow>
                    (case guarded data ''collection'' of
                       None \<Rightarrow> Inr collection
                     | Some detail \<Rightarrow>
                         (case collection of
                            JObj fs \<Rightarrow> Inr (JObj (assign fs detail))
                          | JArr xs \<Rightarrow> Inl Unmodelled
                          | _ \<Rightarrow> Inr collection)))))"

fun enrichCollections :: "env \<Rightarrow> string \<Rightarrow> nat \<Rightarrow> json list \<Rightarrow> fault + json list" where
  "enrichCollections env storeUrl i [] = Inr []"
| "enrichCollections env storeUrl i (c # cs) =
     (case enrichCollection env storeUrl i c of
        Inl e \<Rightarrow> Inl e
      | Inr c' \<Rightarrow>
          (case enrichCollections env storeUrl (Suc i) cs of
             Inl e \<Rightarrow> Inl e
           | Inr cs' \<Rightarrow> Inr (c' # cs')))"

text \<open>
  The callback of \<^verbatim>\<open>.each\<close> at lines 260 to 279: \<open>i\<close> is the place of the anchor in the
  selection and \<open>found\<close> the array \<^verbatim>\<open>collections\<close> so far.
\<close>

definition collectionLink :: "string \<Rightarrow> nat \<Rightarrow> node \<Rightarrow> json list \<Rightarrow> fault + json list" where
  "collectionLink storeUrl i el found =
     (case attr el ''href'' of
        None \<Rightarrow> Inr found
      | Some href \<Rightarrow>
          if href \<noteq> [] \<and> \<not> js_includes href ''/products/'' \<and> \<not> js_includes href ''/collections/all''
          then
            (case nth_opt (js_split href ''/collections/'') 1 of
               None \<Rightarrow> Inl Thrown
             | Some rest \<Rightarrow>
                 (case nth_opt (js_split rest ''/'') 0 of
                    None \<Rightarrow> Inr found
                  | Some handle \<Rightarrow>
                      if handle \<noteq> [] then
                        (let title = trim (node_text el) in
                         if find (\<lambda>c. field c ''handle'' = Some (JStr handle)) found = None \<and> title \<noteq> []
                         then
                           Inr (found @
                             [JObj [(''id'', JStr (digits i)),
                                    (''handle'', JStr handle),
                                    (''title'', JStr title),
                                    (''url'', JStr (if startsWith href ''http'' then href else storeUrl @ href))]])
                         else Inr found)
                      else Inr found))
          else Inr found)"

fun scanCollectionLinks :: "string \<Rightarrow> nat \<Rightarrow> node list \<Rightarrow> json list \<Rightarrow> fault + json list" where
  "scanCollectionLinks storeUrl i [] found = Inr found"
| "scanCollectionLinks storeUrl i (el # els) found =
     (case collectionLink storeUrl i el found of
        Inl e \<Rightarrow> Inl e
      | Inr found' \<Rightarrow> scanCollectionLinks storeUrl (Suc i) els found')"

text \<open>The inner \<^verbatim>\<open>try\<close> of the \<^verbatim>\<open>catch\<close> block (lines 249 to 285).\<close>

definition scrapeCollections :: "env \<Rightarrow> string \<Rightarrow> json" where
  "scrapeCollections env storeUrl =
     (case axios_get env CollectionsPage (storeUrl @ ''/collections'') of
        None \<Rightarrow> JArr []
      | Some page \<Rightarrow>
          (case cheerio_load env page of
             None \<Rightarrow> JArr []
           | Some doc \<Rightarrow>
               (case scanCollectionLinks storeUrl 0 (select (a_href_contains ''/collections/'') doc) [] of
                  Inl e \<Rightarrow> JArr []
                | Inr found \<Rightarrow> JArr found)))"

text \<open>
  A listing that is a string is walked character by character and returned as it is; a
  listing that is no array and no string cannot be walked, which throws into the outer
  \<^verbatim>\<open>catch\<close>.
\<close>

definition fetchCollections :: "env \<Rightarrow> string \<Rightarrow> fault + json" where
  "fetchCollections env storeUrl =
     (case axios_get env CollectionsJson (storeUrl @ ''/collections.json'') of
        None \<Rightarrow> Inr (scrapeCollections env storeUrl)
      | Some data \<Rightarrow>
          (case guarded data ''collections'' of
             None \<Rightarrow> Inr (JArr [])
           | Some (JArr cs) \<Rightarrow>
               (case enrichCollections env storeUrl 0 cs of
                  Inr cs' \<Rightarrow> Inr (JArr cs')
                | Inl Thrown \<Rightarrow> Inr (scrapeCollections env storeUrl)
                | Inl Unmodelled \<Rightarrow> Inl Unmodelled)
           | Some (JStr s) \<Rightarrow> Inr (JStr s)
           | Some other \<Rightarrow> Inr (scrapeCollections env storeUrl)))"

section \<open>fetchBlogs\<close>

text \<open>The callback of \<^verbatim>\<open>.each\<close> at lines 318 to 340.\<close>

definition blogLink :: "string \<Rightarrow> nat \<Rightarrow> node \<Rightarrow> json list \<Rightarrow> json list" where
  "blogLink storeUrl i el found =
     (case attr el ''href'' of
        None \<Rightarrow> found
      | Some href \<Rightarrow>
          if href \<noteq> [] \<and> \<not> js_includes href ''/blogs/news/tagged/'' then
            (let parts = js_split href ''/blogs/'' in
             if length parts > 1 then
               (case nth_opt (js_split (parts ! 1) ''/'') 0 of
                  None \<Rightarrow> found
                | Some handle \<Rightarrow>
                    if handle \<noteq> [] then
                      (let title = trim (node_text el) in
                       if find (\<lambda>b. field b ''handle'' = Some (JStr handle)) found = None \<and> title \<noteq> []
                       then
                         found @
                           [JObj [(''id'', JStr (''blog_'' @ digits i)),
                                  (''handle'', JStr handle),
                                  (''title'', JStr title),
                                  (''url'', JStr (if startsWith href ''http'' then href else storeUrl @ href))]]
                       else found)
                    else found)
             else found)
          else found)"

fun scanBlogLinks :: "string \<Rightarrow> nat \<Rightarrow> node list \<Rightarrow> json list \<Rightarrow> json list" where
  "scanBlogLinks storeUrl i [] found = found"
| "scanBlogLinks storeUrl i (el # els) found =
     scanBlogLinks storeUrl (Suc i) els (blogLink storeUrl i el found)"

definition scrapeBlogs :: "env \<Rightarrow> string \<Rightarrow> json" where
  "scrapeBlogs env storeUrl =
     (case axios_get env HomepageLinks storeUrl of
        None \<Rightarrow> JArr []
      | Some page \<Rightarrow>
          (case cheerio_load env page of
             None \<Rightarrow> JArr []
           | Some doc \<Rightarrow> JArr (scanBlogLinks storeUrl 0 (select (a_href_contains ''/blogs/'') doc) [])))"

definition fetchBlogs :: "env \<Rightarrow> string \<Rightarrow> json" where
  "fetchBlogs env storeUrl =
     (case axios_get env BlogsJson (storeUrl @ ''/blogs.json'') of
        None \<Rightarrow> scrapeBlogs env storeUrl
      | Some data \<Rightarrow> (case guarded data ''blogs'' of Some bs \<Rightarrow> bs | None \<Rightarrow> JArr []))"

section \<open>fetchArticles\<close>

text \<open>
  One round of the loop of lines 363 to 372. \<^verbatim>\<open>article.content\<close> of \<^verbatim>\<open>null\<close> throws, and
  so may \<^verbatim>\<open>cheerio.load\<close>; both reach the \<^verbatim>\<open>catch\<close> of \<^verbatim>\<open>fetchArticles\<close>.
\<close>

definition summarizeArticle :: "env \<Rightarrow> json \<Rightarrow> fault + json" where
  "summarizeArticle env article =
     (case article of
        JNull \<Rightarrow> Inl Thrown
      | JObj fs \<Rightarrow>
          (case map_of fs ''content'' of
             None \<Rightarrow> Inr article
           | Some content \<Rightarrow>
               if truthy content then
                 (case cheerio_load env content of
                    None \<Rightarrow> Inl Thrown
                  | Some doc \<Rightarrow>
                      Inr (JObj (AList.delete ''content''
                        (AList.update ''summary''
                           (JStr (take 200 (trim (first_text (select (is_tag ''p'') doc))) @ ''...''))
                           fs))))
               else Inr article)
      | _ \<Rightarrow> Inr article)"

fun summarizeArticles :: "env \<Rightarrow> json list \<Rightarrow> fault + json list" where
  "summarizeArticles env [] = Inr []"
| "summarizeArticles env (a # as) =
     (case summarizeArticle env a of
        Inl e \<Rightarrow> Inl e
      | Inr a' \<Rightarrow>
          (case summarizeArticles env as of
             Inl e \<Rightarrow> Inl e
           | Inr as' \<Rightarrow> Inr (a' # as')))"

text \<open>
  \<open>i\<close> is the round of the loop of \<^verbatim>\<open>handler\<close> that makes the call, and \<open>blogHandle\<close>
  is \<open>None\<close> for \<^verbatim>\<open>undefined\<close>. A handle whose conversion to a string throws does so at
  line 353, inside the \<^verbatim>\<open>try\<close>, and again at line 379, inside the \<^verbatim>\<open>catch\<close>: that
  exception leaves \<^verbatim>\<open>fetchArticles\<close>. Every other exception ends in the empty array.
\<close>

definition fetchArticles :: "env \<Rightarrow> string \<Rightarrow> nat \<Rightarrow> json option \<Rightarrow> fault + json" where
  "fetchArticles env storeUrl i blogHandle =
     (case interpolate (number_text env) blogHandle of
        None \<Rightarrow> Inl Thrown
      | Some handle \<Rightarrow>
          (case axios_get env (ArticlesJson i) (storeUrl @ ''/blogs/'' @ handle @ ''/articles.json'') of
             None \<Rightarrow> Inr (JArr [])
           | Some data \<Rightarrow>
               (case guarded data ''articles'' of
                  None \<Rightarrow> Inr (JArr [])
                | Some (JArr as) \<Rightarrow>
                    (case summarizeArticles env as of
                       Inl e \<Rightarrow> Inr (JArr [])
                     | Inr as' \<Rightarrow> Inr (JArr as'))
                | Some (JStr s) \<Rightarrow> Inr (JStr s)
                | Some other \<Rightarrow> Inr (JArr []))))"

section \<open>handler\<close>

record request =
  http_method :: string
  body_storeUrl :: "string option"

datatype error = MethodNotAllowed | UrlRequired | ScrapeFailed | NotModelled

text \<open>\<^verbatim>\<open>[...v]\<close>: the items of an array, the characters of a string; nothing else can be
  spread.\<close>

fun spread :: "json \<Rightarrow> json list option" where
  "spread (JArr xs) = Some xs"
| "spread (JStr s) = Some (map (\<lambda>c. JStr [c]) s)"
| "spread v = None"

text \<open>
  The loop of lines 42 to 47: \<open>flat\<close> is \<^verbatim>\<open>storeData.articles\<close>. An exception that leaves
  \<^verbatim>\<open>fetchArticles\<close> leaves the loop too. The module runs in strict mode, so setting
  \<^verbatim>\<open>blog.articles\<close> on a primitive value throws.
\<close>

fun attachArticles ::
  "env \<Rightarrow> string \<Rightarrow> nat \<Rightarrow> json list \<Rightarrow> json list \<Rightarrow> fault + json list \<times> json list" where
  "attachArticles env storeUrl i [] flat = Inr ([], flat)"
| "attachArticles env storeUrl i (blog # rest) flat =
     (case blog of
        JNull \<Rightarrow> Inl Thrown
      | JObj fs \<Rightarrow>
          (case fetchArticles env storeUrl i (map_of fs ''handle'') of
             Inl e \<Rightarrow> Inl e
           | Inr fetched \<Rightarrow>
               (case spread fetched of
                  None \<Rightarrow> Inl Thrown
                | Some items \<Rightarrow>
                    (case attachArticles env storeUrl (Suc i) rest (flat @ items) of
                       Inl e \<Rightarrow> Inl e
                     | Inr (rest', flat') \<Rightarrow>
                         Inr (JObj (AList.update ''articles'' fetched fs) # rest', flat'))))
      | JArr xs \<Rightarrow> Inl Unmodelled
      | _ \<Rightarrow> Inl Thrown)"

definition handler :: "env \<Rightarrow> request \<Rightarrow> error + Aggregate" where
  "handler env req =
     (if http_method req \<noteq> ''POST'' then Inl MethodNotAllowed
      else
        (case body_storeUrl req of
           None \<Rightarrow> Inl UrlRequired
         | Some url \<Rightarrow>
             if url = [] then Inl UrlRequired
             else
               (let info = fetchStoreInfo env url;
                    ps = fetchProducts env url
                in
                case fetchCollections env url of
                  Inl e \<Rightarrow> Inl NotModelled
                | Inr cs \<Rightarrow>
                    (case fetchBlogs env url of
                       JArr bs \<Rightarrow>
                         (case attachArticles env url 0 bs [] of
                            Inl Thrown \<Rightarrow> Inl ScrapeFailed
                          | Inl Unmodelled \<Rightarrow> Inl NotModelled
                          | Inr (bs', flat) \<Rightarrow>
                              Inr \<lparr>products = ps, collections = cs, blogs = JArr bs',
                                   articles = flat, storeInfo = info\<rparr>)
                     | JStr s \<Rightarrow>
                         if s = [] then
                           Inr \<lparr>products = ps, collections = cs, blogs = JStr s,
                                articles = [], storeInfo = info\<rparr>
                         else Inl ScrapeFailed
                     | other \<Rightarrow> Inl ScrapeFailed))))"

section \<open>Handles of anchors\<close>

text \<open>
  The handle the callback of \<^verbatim>\<open>fetchCollections\<close> derives from an anchor, when the anchor
  passes the tests on its \<^verbatim>\<open>href\<close> and the handle is not empty; the text of the anchor
  plays no part in it.
\<close>

definition collection_handle :: "node \<Rightarrow> string option" where
  "collection_handle el =
     (case attr el ''href'' of
        None \<Rightarrow> None
      | Some href \<Rightarrow>
          if href \<noteq> [] \<and> \<not> js_includes href ''/products/'' \<and> \<not> js_includes href ''/collections/all''
          then
            (case nth_opt (js_split href ''/collections/'') 1 of
               None \<Rightarrow> None
             | Some rest \<Rightarrow>
                 (case nth_opt (js_split rest ''/'') 0 of
                    None \<Rightarrow> None
                  | Some handle \<Rightarrow> if handle \<noteq> [] then Some handle else None))
          else None)"

text \<open>The same for the callback of \<^verbatim>\<open>fetchBlogs\<close>.\<close>

definition blog_handle :: "node \<Rightarrow> string option" where
  "blog_handle el =
     (case attr el ''href'' of
        None \<Rightarrow> None
      | Some href \<Rightarrow>
          if href \<noteq> [] \<and> \<not> js_includes href ''/blogs/news/tagged/'' then
            (let parts = js_split href ''/blogs/'' in
             if length parts > 1 then
               (case nth_opt (js_split (parts ! 1) ''/'') 0 of
                  None \<Rightarrow> None
                | Some handle \<Rightarrow> if handle \<noteq> [] then Some handle else None)
             else None)
          else None)"

text \<open>The \<^verbatim>\<open>url\<close> both callbacks give an entry.\<close>

definition link_url :: "string \<Rightarrow> node \<Rightarrow> string" where
  "link_url storeUrl el =
     (case attr el ''href'' of
        None \<Rightarrow> storeUrl
      | Some href \<Rightarrow> if startsWith href ''http'' then href else storeUrl @ href)"

text \<open>
  What an anchor at place \<open>i\<close> of the selection offers to the list: its handle and the
  entry the callback would push, when it has a handle and its trimmed text is not empty.
\<close>

definition collectionOffer :: "string \<Rightarrow> nat \<Rightarrow> node \<Rightarrow> (string \<times> json) option" where
  "collectionOffer storeUrl i el =
     (case collection_handle el of
        None \<Rightarrow> None
      | Some h \<Rightarrow>
          if trim (node_text el) \<noteq> [] then
            Some (h, JObj [(''id'', JStr (digits i)), (''handle'', JStr h),
                           (''title'', JStr (trim (node_text el))),
                           (''url'', JStr (link_url storeUrl el))])
          else None)"

definition blogOffer :: "string \<Rightarrow> nat \<Rightarrow> node \<Rightarrow> (string \<times> json) option" where
  "blogOffer storeUrl i el =
     (case blog_handle el of
        None \<Rightarrow> None
      | Some h \<Rightarrow>
          if trim (node_text el) \<noteq> [] then
            Some (h, JObj [(''id'', JStr (''blog_'' @ digits i)), (''handle'', JStr h),
                           (''title'', JStr (trim (node_text el))),
                           (''url'', JStr (link_url storeUrl el))])
          else None)"

text \<open>A scan that takes every offer whose handle is not in the list yet.\<close>

fun keep_first :: "(nat \<Rightarrow> 'a \<Rightarrow> (string \<times> json) option) \<Rightarrow> nat \<Rightarrow> 'a list \<Rightarrow> json list \<Rightarrow> json list" where
  "keep_first offer i [] found = found"
| "keep_first offer i (x # xs) found =
     keep_first offer (Suc i) xs
       (case offer i x of
          None \<Rightarrow> found
        | Some (h, e) \<Rightarrow>
            if find (\<lambda>c. field c ''handle'' = Some (JStr h)) found = None then found @ [e] else found)"

abbreviation has_handle :: "string \<Rightarrow> json \<Rightarrow> bool" where
  "has_handle h c \<equiv> field c ''handle'' = Some (JStr h)"

section \<open>Stores for the examples\<close>

text \<open>A store that answers each request by its URL alone, from a list of pages.\<close>

definition shop :: "(string \<times> json) list \<Rightarrow> (json \<Rightarrow> node list option) \<Rightarrow> env" where
  "shop pages parse =
     \<lparr>axios_get = (\<lambda>s u. map_of pages u), cheerio_load = parse, number_text = (\<lambda>r. []),
      pageFields = (\<lambda>u d h. unknownStore)\<rparr>"

definition all_items_only :: env where
  "all_items_only =
     shop [(''https://shop.example/collections/all.json'',
            JObj [(''products'', JArr [JObj [(''id'', JNum 1)], JObj [(''id'', JNum 2)]])])]
          (\<lambda>j. None)"


definition news_articles :: "(string \<times> json) list list" where
  "news_articles =
     [[(''id'', JNum 1), (''title'', JStr ''Welcome''),
       (''content'', JStr ''<h1>Hi</h1><p> Hello <b>world</b> </p><p>More</p>'')],
      [(''id'', JNum 2), (''title'', JStr ''Draft''), (''content'', JStr [])],
      [(''id'', JNum 3), (''content'', JStr ''<div>No paragraph</div>'')],
      [(''id'', JNum 4), (''content'', JStr (''<p>'' @ replicate 250 (CHR ''a'') @ ''</p>''))]]"

definition news_markup :: "(json \<times> node list) list" where
  "news_markup =
     [(JStr ''<h1>Hi</h1><p> Hello <b>world</b> </p><p>More</p>'',
       [Element ''h1'' [] [Text ''Hi''],
        Element ''p'' [] [Text '' Hello '', Element ''b'' [] [Text ''world''], Text '' ''],
        Element ''p'' [] [Text ''More'']]),
      (JStr ''<div>No paragraph</div>'', [Element ''div'' [] [Text ''No paragraph'']]),
      (JStr (''<p>'' @ replicate 250 (CHR ''a'') @ ''</p>''),
       [Element ''p'' [] [Text (replicate 250 (CHR ''a''))]])]"

definition news_blog :: env where
  "news_blog =
     shop [(''https://shop.example/blogs/news/articles.json'',
            JObj [(''articles'', JArr (map JObj news_articles))])]
          (map_of news_markup)"

definition two_blogs :: env where
  "two_blogs =
     shop [(''https://shop.example/blogs.json'',
            JObj [(''blogs'',
               JArr [JObj [(''handle'', JStr ''news''), (''title'', JStr ''News'')],
                     JObj [(''handle'', JStr ''tips'')]])]),
           (''https://shop.example/blogs/news/articles.json'',
            JObj [(''articles'', JArr [JObj [(''id'', JNum 1)], JObj [(''id'', JNum 2)]])]),
           (''https://shop.example/blogs/tips/articles.json'',
            JObj [(''articles'', JArr [JObj [(''id'', JNum 3)]])])]
          (\<lambda>j. None)"

definition collections_markup :: "node list" where
  "collections_markup =
     [Element ''ul'' []
        [Element ''a'' [(''href'', ''/collections/hats'')] [Element ''img'' [(''src'', ''hats.png'')] []],
         Element ''a'' [(''href'', ''/collections/hats/'')] [Text '' Hats ''],
         Element ''a'' [(''href'', ''https://shop.example/collections/hats/new'')] [Text ''New hats''],
         Element ''a'' [(''href'', ''/collections/shoes'')] [Text ''Shoes''],
         Element ''a'' [(''href'', ''/collections/gloves'')] [Element ''img'' [(''src'', ''gloves.png'')] []]]]"

definition homepage_markup :: "node list" where
  "homepage_markup =
     [Element ''nav'' []
        [Element ''a'' [(''href'', ''/blogs/news'')] [Element ''img'' [(''src'', ''news.png'')] []],
         Element ''a'' [(''href'', ''/blogs/news/welcome'')] [Text ''Welcome post''],
         Element ''a'' [(''href'', ''/blogs/news'')] [Text ''News''],
         Element ''a'' [(''href'', ''/blogs/tips'')] [Element ''img'' [(''src'', ''tips.png'')] []]]]"

definition duplicate_links :: env where
  "duplicate_links =
     shop [(''https://shop.example/collections'', JStr ''<ul>collection links</ul>''),
           (''https://shop.example'', JStr ''<nav>blog links</nav>'')]
          (map_of [(JStr ''<ul>collection links</ul>'', collections_markup),
                   (JStr ''<nav>blog links</nav>'', homepage_markup)])"

definition all_shoes_markup :: "node list" where
  "all_shoes_markup =
     [Element ''ul'' []
        [Element ''a'' [(''href'', ''/collections/all-shoes'')] [Text ''All shoes''],
         Element ''a'' [(''href'', ''/collections/hats'')] [Text ''Hats'']]]"

definition all_shoes :: env where
  "all_shoes =
     shop [(''https://shop.example/collections'', JStr ''<ul>all shoes and hats</ul>'')]
          (map_of [(JStr ''<ul>all shoes and hats</ul>'', all_shoes_markup)])"


section \<open>Total failure of the upstream store\<close>

text \<open>
  C1. A POST request with a non-empty store URL, all of whose upstream requests fail (the
  homepage, \<^verbatim>\<open>products.json\<close>, \<^verbatim>\<open>collections/all.json\<close>, \<^verbatim>\<open>collections.json\<close>, the
  collections index page, \<^verbatim>\<open>blogs.json\<close> and the homepage of the blog fallback), is
  answered with the aggregate whose products, collections, blogs and articles are empty
  and whose store information is the default record; in particular not with the
  scrape failure.
\<close>

theorem handler_unreachable_store:
  assumes "url \<noteq> []"
    and "axios_get env Homepage url = None"
    and "axios_get env ProductsJson (url @ ''/products.json'') = None"
    and "axios_get env CollectionsAllJson (url @ ''/collections/all.json'') = None"
    and "axios_get env CollectionsJson (url @ ''/collections.json'') = None"
    and "axios_get env CollectionsPage (url @ ''/collections'') = None"
    and "axios_get env BlogsJson (url @ ''/blogs.json'') = None"
    and "axios_get env HomepageLinks url = None"
  shows "handler env \<lparr>http_method = ''POST'', body_storeUrl = Some url\<rparr> =
     Inr \<lparr>products = JArr [], collections = JArr [], blogs = JArr [], articles = [],
          storeInfo = \<lparr>name = ''Unknown Store'', logo = [], favicon = [], address = [],
                       email = [], phone = [], socialLinks = []\<rparr>\<rparr>"
  using assms
  by (simp add: handler_def fetchStoreInfo_def fetchProducts_def fetchCollections_def
      scrapeCollections_def fetchBlogs_def scrapeBlogs_def unknownStore_def)

theorem handler_unreachable_store_witness:
  "handler (shop [] (\<lambda>j. None)) \<lparr>http_method = ''POST'', body_storeUrl = Some ''https://shop.example''\<rparr> =
     Inr \<lparr>products = JArr [], collections = JArr [], blogs = JArr [], articles = [],
          storeInfo = \<lparr>name = ''Unknown Store'', logo = [], favicon = [], address = [],
                       email = [], phone = [], socialLinks = []\<rparr>\<rparr>"
  by (rule handler_unreachable_store) (simp_all add: shop_def)

section \<open>Products\<close>

text \<open>
  C2. When the request for \<^verbatim>\<open>products.json\<close> fails: if \<^verbatim>\<open>collections/all.json\<close> answers
  with an object whose \<^verbatim>\<open>products\<close> is an array, \<^verbatim>\<open>fetchProducts\<close> returns that array as
  it is; if that request fails too, it returns the empty array. The result is a value in
  both cases: \<^const>\<open>fetchProducts\<close> has no exceptional result.
\<close>

theorem fetchProducts_fallback:
  assumes "axios_get env ProductsJson (url @ ''/products.json'') = None"
  shows "(\<forall>body items.
            axios_get env CollectionsAllJson (url @ ''/collections/all.json'') = Some (JObj body) \<and>
            map_of body ''products'' = Some (JArr items) \<longrightarrow>
            fetchProducts env url = JArr items) \<and>
         (axios_get env CollectionsAllJson (url @ ''/collections/all.json'') = None \<longrightarrow>
            fetchProducts env url = JArr [])"
  using assms by (simp add: fetchProducts_def guarded_def)

theorem fetchProducts_fallback_witness:
  "fetchProducts all_items_only ''https://shop.example'' = JArr [JObj [(''id'', JNum 1)], JObj [(''id'', JNum 2)]] \<and>
   fetchProducts (shop [] (\<lambda>j. None)) ''https://shop.example'' = JArr []"
proof
  have "axios_get all_items_only ProductsJson (''https://shop.example'' @ ''/products.json'') = None"
    by (simp add: all_items_only_def shop_def)
  from fetchProducts_fallback [OF this]
  show "fetchProducts all_items_only ''https://shop.example'' = JArr [JObj [(''id'', JNum 1)], JObj [(''id'', JNum 2)]]"
    by (simp add: all_items_only_def shop_def)
next
  have "axios_get (shop [] (\<lambda>j. None)) ProductsJson (''https://shop.example'' @ ''/products.json'') = None"
    by (simp add: shop_def)
  from fetchProducts_fallback [OF this]
  show "fetchProducts (shop [] (\<lambda>j. None)) ''https://shop.example'' = JArr []"
    by (simp add: shop_def)
qed

section \<open>Collections from the listing\<close>









section \<open>Article summaries\<close>

lemma summarizeArticle_object:
  assumes "\<forall>c. map_of fs ''content'' = Some c \<and> truthy c \<longrightarrow> cheerio_load env c \<noteq> None"
  shows "\<exists>r. summarizeArticle env (JObj fs) = Inr (JObj r)"
  using assms by (auto simp: summarizeArticle_def split: option.splits)

lemma summarizeArticles_objects:
  assumes "\<forall>a\<in>set arts. \<forall>c. map_of a ''content'' = Some c \<and> truthy c \<longrightarrow> cheerio_load env c \<noteq> None"
  shows "\<exists>rs. summarizeArticles env (map JObj arts) = Inr (map JObj rs) \<and> length rs = length arts \<and>
        (\<forall>j<length arts. summarizeArticle env (JObj (arts ! j)) = Inr (JObj (rs ! j)))"
  using assms
proof (induction arts)
  case Nil
  show ?case by simp
next
  case (Cons a arts)
  obtain r where r: "summarizeArticle env (JObj a) = Inr (JObj r)"
    using summarizeArticle_object [of a env] Cons.prems by auto
  obtain rs where rs: "summarizeArticles env (map JObj arts) = Inr (map JObj rs)"
    "length rs = length arts"
    "\<forall>j<length arts. summarizeArticle env (JObj (arts ! j)) = Inr (JObj (rs ! j))"
    using Cons.IH Cons.prems by auto
  have "\<forall>j<length (a # arts). summarizeArticle env (JObj ((a # arts) ! j)) = Inr (JObj ((r # rs) ! j))"
  proof (intro allI impI)
    fix j assume "j < length (a # arts)"
    then show "summarizeArticle env (JObj ((a # arts) ! j)) = Inr (JObj ((r # rs) ! j))"
      using r rs(3) by (cases j) auto
  qed
  with r rs(1,2) show ?case
    by (intro exI [of _ "r # rs"]) simp
qed

lemma fetchArticles_objects:
  assumes "interpolate (number_text env) blogHandle = Some h"
    and "axios_get env (ArticlesJson i) (url @ ''/blogs/'' @ h @ ''/articles.json'') = Some data"
    and "guarded data ''articles'' = Some (JArr (map JObj arts))"
    and "\<forall>a\<in>set arts. \<forall>c. map_of a ''content'' = Some c \<and> truthy c \<longrightarrow> cheerio_load env c \<noteq> None"
  shows "\<exists>rs. fetchArticles env url i blogHandle = Inr (JArr (map JObj rs)) \<and> length rs = length arts \<and>
        (\<forall>j<length arts. summarizeArticle env (JObj (arts ! j)) = Inr (JObj (rs ! j)))"
proof -
  obtain rs where rs: "summarizeArticles env (map JObj arts) = Inr (map JObj rs)"
    "length rs = length arts"
    "\<forall>j<length arts. summarizeArticle env (JObj (arts ! j)) = Inr (JObj (rs ! j))"
    using summarizeArticles_objects [OF assms(4)] by blast
  have "fetchArticles env url i blogHandle = Inr (JArr (map JObj rs))"
    using assms(1-3) rs(1) by (simp add: fetchArticles_def)
  with rs(2,3) show ?thesis by blast
qed

lemma summarizeArticle_result:
  assumes "summarizeArticle env (JObj fs) = Inr (JObj r)"
  shows "(case map_of fs ''content'' of
           None \<Rightarrow> r = fs
         | Some c \<Rightarrow>
             if truthy c then
               (\<exists>doc. cheerio_load env c = Some doc \<and>
                  map_of r ''summary'' =
                    Some (JStr (take 200 (trim (first_text (select (is_tag ''p'') doc))) @ ''...'')) \<and>
                  map_of r ''content'' = None \<and>
                  (\<forall>k. k \<noteq> ''summary'' \<and> k \<noteq> ''content'' \<longrightarrow> map_of r k = map_of fs k))
             else r = fs)"
  using assms
  by (auto simp: summarizeArticle_def update_conv' delete_conv' split: option.splits if_splits)

lemma news_blog_handle:
  "interpolate (number_text news_blog) (Some (JStr ''news'')) = Some ''news''"
  by (simp add: interpolate_def)

lemma news_blog_request:
  "axios_get news_blog (ArticlesJson 0) (''https://shop.example'' @ ''/blogs/'' @ ''news'' @ ''/articles.json'') =
     Some (JObj [(''articles'', JArr (map JObj news_articles))])"
  by (simp add: news_blog_def shop_def)

lemma news_blog_listing:
  "guarded (JObj [(''articles'', JArr (map JObj news_articles))]) ''articles'' =
     Some (JArr (map JObj news_articles))"
  by (simp add: guarded_def)

lemma news_blog_loads:
  "\<forall>a\<in>set news_articles. \<forall>c. map_of a ''content'' = Some c \<and> truthy c \<longrightarrow> cheerio_load news_blog c \<noteq> None"
  by (simp add: news_articles_def news_blog_def shop_def news_markup_def)

lemma long_summary: "take 200 (trim (replicate 250 (CHR ''a''))) = replicate 200 (CHR ''a'')"
  by code_simp

text \<open>
  C4. When the blog handle prints as a string and the articles endpoint answers with
  article objects (and \<^verbatim>\<open>cheerio.load\<close> accepts the content of each),
  \<^verbatim>\<open>fetchArticles\<close> returns one object per article, in order. An article whose
  \<^verbatim>\<open>content\<close> is truthy gets as \<^verbatim>\<open>summary\<close> the text of the first \<^verbatim>\<open>p\<close> element of the
  parsed content, trimmed, cut to its first 200 characters, with \<^verbatim>\<open>...\<close> appended; its
  \<^verbatim>\<open>content\<close> is gone and every other property is as it was. An article whose
  \<^verbatim>\<open>content\<close> is absent or falsy is returned as it is.
\<close>

theorem fetchArticles_summaries:
  assumes "interpolate (number_text env) blogHandle = Some h"
    and "axios_get env (ArticlesJson i) (url @ ''/blogs/'' @ h @ ''/articles.json'') = Some data"
    and "guarded data ''articles'' = Some (JArr (map JObj arts))"
    and "\<forall>a\<in>set arts. \<forall>c. map_of a ''content'' = Some c \<and> truthy c \<longrightarrow> cheerio_load env c \<noteq> None"
  shows "\<exists>rs. fetchArticles env url i blogHandle = Inr (JArr (map JObj rs)) \<and> length rs = length arts \<and>
     (\<forall>j<length arts.
        (case map_of (arts ! j) ''content'' of
           None \<Rightarrow> rs ! j = arts ! j
         | Some c \<Rightarrow>
             if truthy c then
               (\<exists>doc. cheerio_load env c = Some doc \<and>
                  map_of (rs ! j) ''summary'' =
                    Some (JStr (take 200 (trim (first_text (select (is_tag ''p'') doc))) @ ''...'')) \<and>
                  map_of (rs ! j) ''content'' = None \<and>
                  (\<forall>k. k \<noteq> ''summary'' \<and> k \<noteq> ''content'' \<longrightarrow> map_of (rs ! j) k = map_of (arts ! j) k))
             else rs ! j = arts ! j))"
proof -
  obtain rs where rs: "fetchArticles env url i blogHandle = Inr (JArr (map JObj rs))"
    "length rs = length arts"
    "\<forall>j<length arts. summarizeArticle env (JObj (arts ! j)) = Inr (JObj (rs ! j))"
    using fetchArticles_objects [OF assms] by blast
  from rs(3) have "\<forall>j<length arts.
        (case map_of (arts ! j) ''content'' of
           None \<Rightarrow> rs ! j = arts ! j
         | Some c \<Rightarrow>
             if truthy c then
               (\<exists>doc. cheerio_load env c = Some doc \<and>
                  map_of (rs ! j) ''summary'' =
                    Some (JStr (take 200 (trim (first_text (select (is_tag ''p'') doc))) @ ''...'')) \<and>
                  map_of (rs ! j) ''content'' = None \<and>
                  (\<forall>k. k \<noteq> ''summary'' \<and> k \<noteq> ''content'' \<longrightarrow> map_of (rs ! j) k = map_of (arts ! j) k))
             else rs ! j = arts ! j)"
    using summarizeArticle_result by blast
  with rs(1,2) show ?thesis by blast
qed

theorem fetchArticles_summaries_witness:
  "\<exists>rs. fetchArticles news_blog ''https://shop.example'' 0 (Some (JStr ''news'')) = Inr (JArr (map JObj rs)) \<and>
      length rs = 4 \<and>
      map_of (rs ! 0) ''summary'' = Some (JStr ''Hello world...'') \<and>
      map_of (rs ! 0) ''content'' = None \<and>
      map_of (rs ! 0) ''title'' = Some (JStr ''Welcome'') \<and>
      rs ! 1 = [(''id'', JNum 2), (''title'', JStr ''Draft''), (''content'', JStr [])] \<and>
      map_of (rs ! 3) ''summary'' = Some (JStr (replicate 200 (CHR ''a'') @ ''...'')) \<and>
      map_of (rs ! 3) ''content'' = None"
proof -
  from fetchArticles_summaries [OF news_blog_handle news_blog_request news_blog_listing news_blog_loads]
  obtain rs where rs: "fetchArticles news_blog ''https://shop.example'' 0 (Some (JStr ''news'')) = Inr (JArr (map JObj rs))"
    "length rs = length news_articles"
    and all: "\<forall>j<length news_articles.
        (case map_of (news_articles ! j) ''content'' of
           None \<Rightarrow> rs ! j = news_articles ! j
         | Some c \<Rightarrow>
             if truthy c then
               (\<exists>doc. cheerio_load news_blog c = Some doc \<and>
                  map_of (rs ! j) ''summary'' =
                    Some (JStr (take 200 (trim (first_text (select (is_tag ''p'') doc))) @ ''...'')) \<and>
                  map_of (rs ! j) ''content'' = None \<and>
                  (\<forall>k. k \<noteq> ''summary'' \<and> k \<noteq> ''content'' \<longrightarrow> map_of (rs ! j) k = map_of (news_articles ! j) k))
             else rs ! j = news_articles ! j)"
    by blast
  have len: "length news_articles = 4" by (simp add: news_articles_def)
  from all [rule_format, of 0] have r0:
    "map_of (rs ! 0) ''summary'' = Some (JStr ''Hello world...'') \<and> map_of (rs ! 0) ''content'' = None \<and>
     map_of (rs ! 0) ''title'' = Some (JStr ''Welcome'')"
    by (simp add: news_articles_def news_blog_def shop_def news_markup_def select_def first_text_def
        trim_def is_space_def)
  from all [rule_format, of 1] have r1:
    "rs ! 1 = [(''id'', JNum 2), (''title'', JStr ''Draft''), (''content'', JStr [])]"
    by (simp add: news_articles_def)
  from all [rule_format, of 3] have r3:
    "map_of (rs ! 3) ''summary'' = Some (JStr (replicate 200 (CHR ''a'') @ ''...'')) \<and>
     map_of (rs ! 3) ''content'' = None"
    by (simp add: news_articles_def news_blog_def shop_def news_markup_def select_def first_text_def
        long_summary)
  show ?thesis
    using rs len r0 r1 r3 by (intro exI [of _ rs]) simp
qed

text \<open>
  C9. In the same setting, an article whose \<^verbatim>\<open>content\<close> is truthy and whose parsed
  content has no \<^verbatim>\<open>p\<close> element gets the summary \<^verbatim>\<open>...\<close> alone, and loses its
  \<^verbatim>\<open>content\<close> all the same; its other properties stay as they were.
\<close>

theorem fetchArticles_no_paragraph:
  assumes "interpolate (number_text env) blogHandle = Some h"
    and "axios_get env (ArticlesJson i) (url @ ''/blogs/'' @ h @ ''/articles.json'') = Some data"
    and "guarded data ''articles'' = Some (JArr (map JObj arts))"
    and "\<forall>a\<in>set arts. \<forall>c. map_of a ''content'' = Some c \<and> truthy c \<longrightarrow> cheerio_load env c \<noteq> None"
    and "j < length arts"
    and "map_of (arts ! j) ''content'' = Some c"
    and "truthy c"
    and "cheerio_load env c = Some doc"
    and "select (is_tag ''p'') doc = []"
  shows "\<exists>rs. fetchArticles env url i blogHandle = Inr (JArr (map JObj rs)) \<and> length rs = length arts \<and>
     map_of (rs ! j) ''summary'' = Some (JStr ''...'') \<and> map_of (rs ! j) ''content'' = None \<and>
     (\<forall>k. k \<noteq> ''summary'' \<and> k \<noteq> ''content'' \<longrightarrow> map_of (rs ! j) k = map_of (arts ! j) k)"
proof -
  obtain rs where rs: "fetchArticles env url i blogHandle = Inr (JArr (map JObj rs))"
    "length rs = length arts"
    "\<forall>j<length arts. summarizeArticle env (JObj (arts ! j)) = Inr (JObj (rs ! j))"
    using fetchArticles_objects [OF assms(1-4)] by blast
  from rs(3) assms(5) have "summarizeArticle env (JObj (arts ! j)) = Inr (JObj (rs ! j))" by simp
  from summarizeArticle_result [OF this] assms(6-9)
  have "map_of (rs ! j) ''summary'' = Some (JStr ''...'') \<and> map_of (rs ! j) ''content'' = None \<and>
     (\<forall>k. k \<noteq> ''summary'' \<and> k \<noteq> ''content'' \<longrightarrow> map_of (rs ! j) k = map_of (arts ! j) k)"
    by (simp add: first_text_def trim_def)
  with rs(1,2) show ?thesis by blast
qed

theorem fetchArticles_no_paragraph_witness:
  "\<exists>rs. fetchArticles news_blog ''https://shop.example'' 0 (Some (JStr ''news'')) = Inr (JArr (map JObj rs)) \<and>
      length rs = 4 \<and>
      map_of (rs ! 2) ''summary'' = Some (JStr ''...'') \<and>
      map_of (rs ! 2) ''content'' = None \<and>
      map_of (rs ! 2) ''id'' = Some (JNum 3)"
proof -
  have j: "2 < length news_articles" by (simp add: news_articles_def)
  have c: "map_of (news_articles ! 2) ''content'' = Some (JStr ''<div>No paragraph</div>'')"
    by (simp add: news_articles_def)
  have t: "truthy (JStr ''<div>No paragraph</div>'')" by simp
  have d: "cheerio_load news_blog (JStr ''<div>No paragraph</div>'') =
      Some [Element ''div'' [] [Text ''No paragraph'']]"
    by (simp add: news_blog_def shop_def news_markup_def)
  have p: "select (is_tag ''p'') [Element ''div'' [] [Text ''No paragraph'']] = []"
    by (simp add: select_def)
  have len: "length news_articles = 4" by (simp add: news_articles_def)
  have id: "map_of (news_articles ! 2) ''id'' = Some (JNum 3)" by (simp add: news_articles_def)
  from fetchArticles_no_paragraph [OF news_blog_handle news_blog_request news_blog_listing
      news_blog_loads j c t d p]
  obtain rs where rs: "fetchArticles news_blog ''https://shop.example'' 0 (Some (JStr ''news'')) = Inr (JArr (map JObj rs))"
    "length rs = length news_articles"
    "map_of (rs ! 2) ''summary'' = Some (JStr ''...'')"
    "map_of (rs ! 2) ''content'' = None"
    "\<forall>k. k \<noteq> ''summary'' \<and> k \<noteq> ''content'' \<longrightarrow> map_of (rs ! 2) k = map_of (news_articles ! 2) k"
    by blast
  from rs(5) id have "map_of (rs ! 2) ''id'' = Some (JNum 3)" by simp
  with rs(1-4) len show ?thesis by (intro exI [of _ rs]) simp
qed

section \<open>Articles in the aggregate\<close>

lemma attachArticles_objects:
  assumes "\<forall>j<length bs. fetchArticles env url (i + j) (map_of (bs ! j) ''handle'') = Inr (JArr (A (i + j)))"
  shows "attachArticles env url i (map JObj bs) flat =
     Inr (map (\<lambda>j. JObj (AList.update ''articles'' (JArr (A (i + j))) (bs ! j))) [0..<length bs],
          flat @ concat (map (\<lambda>j. A (i + j)) [0..<length bs]))"
  using assms
proof (induction bs arbitrary: i flat)
  case Nil
  show ?case by simp
next
  case (Cons b bs)
  from Cons.prems have here: "fetchArticles env url i (map_of b ''handle'') = Inr (JArr (A i))"
    by force
  from Cons.prems have "\<forall>j<length bs. fetchArticles env url (Suc i + j) (map_of (bs ! j) ''handle'') = Inr (JArr (A (Suc i + j)))"
    by force
  from Cons.IH [OF this, of "flat @ A i"]
  have rest: "attachArticles env url (Suc i) (map JObj bs) (flat @ A i) =
     Inr (map (\<lambda>j. JObj (AList.update ''articles'' (JArr (A (Suc i + j))) (bs ! j))) [0..<length bs],
          (flat @ A i) @ concat (map (\<lambda>j. A (Suc i + j)) [0..<length bs]))" .
  show ?case
    using here rest by (simp add: map_upt_Suc del: upt_Suc)
qed

text \<open>
  C8. When \<^verbatim>\<open>fetchBlogs\<close> returns the blog objects \<open>B\<^sub>0, \<dots>, B\<^sub>n\<^sub>-\<^sub>1\<close> and \<^verbatim>\<open>fetchArticles\<close>
  returns the array \<open>A i\<close> for blog \<open>i\<close> (so it throws for none), the aggregate's \<^verbatim>\<open>articles\<close> is
  \<open>A 0 @ \<dots> @ A (n - 1)\<close>, its blog \<open>i\<close> is \<open>B\<^sub>i\<close> with \<^verbatim>\<open>articles\<close> set to \<open>A i\<close>, and so
  every article under a blog is in the flat list too.
\<close>

theorem handler_articles_flattened:
  assumes "url \<noteq> []"
    and "fetchCollections env url = Inr cs"
    and "fetchBlogs env url = JArr (map JObj bs)"
    and "\<forall>i<length bs. fetchArticles env url i (map_of (bs ! i) ''handle'') = Inr (JArr (A i))"
  shows "\<exists>agg. handler env \<lparr>http_method = ''POST'', body_storeUrl = Some url\<rparr> = Inr agg \<and>
     articles agg = concat (map A [0..<length bs]) \<and>
     blogs agg = JArr (map (\<lambda>i. JObj (AList.update ''articles'' (JArr (A i)) (bs ! i))) [0..<length bs]) \<and>
     (\<forall>i<length bs. set (A i) \<subseteq> set (articles agg))"
proof -
  from assms(4) have "\<forall>j<length bs. fetchArticles env url (0 + j) (map_of (bs ! j) ''handle'') = Inr (JArr (A (0 + j)))"
    by simp
  from attachArticles_objects [OF this, of "[]"]
  have loop: "attachArticles env url 0 (map JObj bs) [] =
     Inr (map (\<lambda>j. JObj (AList.update ''articles'' (JArr (A j)) (bs ! j))) [0..<length bs],
          concat (map A [0..<length bs]))"
    by simp
  let ?agg = "\<lparr>products = fetchProducts env url, collections = cs,
      blogs = JArr (map (\<lambda>j. JObj (AList.update ''articles'' (JArr (A j)) (bs ! j))) [0..<length bs]),
      articles = concat (map A [0..<length bs]), storeInfo = fetchStoreInfo env url\<rparr>"
  have "handler env \<lparr>http_method = ''POST'', body_storeUrl = Some url\<rparr> = Inr ?agg"
    using assms(1-3) loop by (simp add: handler_def)
  moreover have "\<forall>i<length bs. set (A i) \<subseteq> set (articles ?agg)"
    by auto
  ultimately show ?thesis by (intro exI [of _ ?agg]) simp
qed

theorem handler_articles_flattened_witness:
  "\<exists>agg. handler two_blogs \<lparr>http_method = ''POST'', body_storeUrl = Some ''https://shop.example''\<rparr> = Inr agg \<and>
     articles agg = [JObj [(''id'', JNum 1)], JObj [(''id'', JNum 2)], JObj [(''id'', JNum 3)]] \<and>
     blogs agg =
       JArr [JObj [(''handle'', JStr ''news''), (''title'', JStr ''News''),
                   (''articles'', JArr [JObj [(''id'', JNum 1)], JObj [(''id'', JNum 2)]])],
             JObj [(''handle'', JStr ''tips''), (''articles'', JArr [JObj [(''id'', JNum 3)]])]]"
proof -
  let ?bs = "[[(''handle'', JStr ''news''), (''title'', JStr ''News'')], [(''handle'', JStr ''tips'')]]"
  let ?A = "\<lambda>i::nat. if i = 0 then [JObj [(''id'', JNum 1)], JObj [(''id'', JNum 2)]] else [JObj [(''id'', JNum 3)]]"
  have 1: "''https://shop.example'' \<noteq> []" by simp
  have 2: "fetchCollections two_blogs ''https://shop.example'' = Inr (JArr [])"
    by (simp add: fetchCollections_def scrapeCollections_def two_blogs_def shop_def)
  have 3: "fetchBlogs two_blogs ''https://shop.example'' = JArr (map JObj ?bs)"
    by (simp add: fetchBlogs_def two_blogs_def shop_def guarded_def)
  have 4: "\<forall>i<length ?bs. fetchArticles two_blogs ''https://shop.example'' i (map_of (?bs ! i) ''handle'') = Inr (JArr (?A i))"
  proof (intro allI impI)
    fix i :: nat assume "i < length ?bs"
    then have "i = 0 \<or> i = 1" by auto
    then show "fetchArticles two_blogs ''https://shop.example'' i (map_of (?bs ! i) ''handle'') = Inr (JArr (?A i))"
      by (auto simp: fetchArticles_def two_blogs_def shop_def guarded_def interpolate_def
          summarizeArticle_def)
  qed
  from handler_articles_flattened [OF 1 2 3 4]
  obtain agg where
    "handler two_blogs \<lparr>http_method = ''POST'', body_storeUrl = Some ''https://shop.example''\<rparr> = Inr agg"
    "articles agg = concat (map ?A [0..<length ?bs])"
    "blogs agg = JArr (map (\<lambda>i. JObj (AList.update ''articles'' (JArr (?A i)) (?bs ! i))) [0..<length ?bs])"
    by blast
  then show ?thesis
    by (intro exI [of _ agg]) (simp add: upt_rec)
qed

section \<open>Collections and blogs scraped from links\<close>

lemma find_has_handle: "(find (has_handle h) found = None) = (filter (has_handle h) found = [])"
  by (auto simp: find_None_iff filter_empty_conv)

lemma keep_first_stable:
  assumes "\<And>i x h e. offer i x = Some (h, e) \<Longrightarrow> has_handle h e"
    and "filter (has_handle h) found \<noteq> []"
  shows "filter (has_handle h) (keep_first offer i xs found) = filter (has_handle h) found"
  using assms(2)
proof (induction xs arbitrary: i found)
  case Nil
  show ?case by simp
next
  case (Cons x xs)
  let ?found' = "(case offer i x of
          None \<Rightarrow> found
        | Some (h, e) \<Rightarrow>
            if find (has_handle h) found = None then found @ [e] else found)"
  have same: "filter (has_handle h) ?found' = filter (has_handle h) found"
  proof (cases "offer i x")
    case None
    then show ?thesis by simp
  next
    case (Some p)
    obtain h' e where p: "p = (h', e)" by (cases p)
    from assms(1) Some p have e: "has_handle h' e" by blast
    show ?thesis
    proof (cases "h' = h")
      case True
      with Cons.prems have "find (has_handle h') found \<noteq> None"
        by (simp add: find_has_handle)
      with Some p show ?thesis by simp
    next
      case False
      with e have "\<not> has_handle h e" by simp
      with Some p show ?thesis by simp
    qed
  qed
  with Cons.prems have "filter (has_handle h) ?found' \<noteq> []" by simp
  from Cons.IH [OF this] same show ?case by simp
qed

lemma keep_first_none:
  assumes "\<And>i x h e. offer i x = Some (h, e) \<Longrightarrow> has_handle h e"
    and "filter (has_handle h) found = []"
    and "\<forall>j<length xs. \<forall>e. offer (i + j) (xs ! j) \<noteq> Some (h, e)"
  shows "filter (has_handle h) (keep_first offer i xs found) = []"
  using assms(2,3)
proof (induction xs arbitrary: i found)
  case Nil
  then show ?case by simp
next
  case (Cons x xs)
  let ?found' = "(case offer i x of
          None \<Rightarrow> found
        | Some (h, e) \<Rightarrow>
            if find (has_handle h) found = None then found @ [e] else found)"
  from Cons.prems(2) have here: "\<forall>e. offer i x \<noteq> Some (h, e)" by force
  have same: "filter (has_handle h) ?found' = []"
  proof (cases "offer i x")
    case None
    with Cons.prems(1) show ?thesis by simp
  next
    case (Some p)
    obtain h' e where p: "p = (h', e)" by (cases p)
    from assms(1) Some p have e: "has_handle h' e" by blast
    from here Some p have "h' \<noteq> h" by auto
    with e have "\<not> has_handle h e" by simp
    with Some p Cons.prems(1) show ?thesis by simp
  qed
  from Cons.prems(2) have "\<forall>j<length xs. \<forall>e. offer (Suc i + j) (xs ! j) \<noteq> Some (h, e)"
    by force
  from Cons.IH [OF same this] show ?case by simp
qed

lemma keep_first_first:
  assumes "\<And>i x h e. offer i x = Some (h, e) \<Longrightarrow> has_handle h e"
    and "filter (has_handle h) found = []"
    and "j < length xs"
    and "offer (i + j) (xs ! j) = Some (h, e)"
    and "\<forall>j'<j. \<forall>e'. offer (i + j') (xs ! j') \<noteq> Some (h, e')"
  shows "filter (has_handle h) (keep_first offer i xs found) = [e]"
  using assms(2-5)
proof (induction xs arbitrary: i j found)
  case Nil
  then show ?case by simp
next
  case (Cons x xs)
  let ?found' = "(case offer i x of
          None \<Rightarrow> found
        | Some (h, e) \<Rightarrow>
            if find (has_handle h) found = None then found @ [e] else found)"
  show ?case
  proof (cases j)
    case 0
    with Cons.prems(3) have here: "offer i x = Some (h, e)" by simp
    from assms(1) [OF here] have e: "has_handle h e" .
    from here Cons.prems(1) e have "filter (has_handle h) ?found' = [e]"
      by (simp add: find_has_handle)
    moreover from this have "filter (has_handle h) ?found' \<noteq> []" by simp
    from keep_first_stable [of offer h ?found' "Suc i" xs, OF assms(1) this]
    have "filter (has_handle h) (keep_first offer (Suc i) xs ?found') = filter (has_handle h) ?found'" .
    ultimately show ?thesis by simp
  next
    case (Suc j')
    from Cons.prems(4) Suc have here: "\<forall>e'. offer i x \<noteq> Some (h, e')" by force
    have same: "filter (has_handle h) ?found' = []"
    proof (cases "offer i x")
      case None
      with Cons.prems(1) show ?thesis by simp
    next
      case (Some p)
      obtain h' e' where p: "p = (h', e')" by (cases p)
      from assms(1) Some p have e': "has_handle h' e'" by blast
      from here Some p have "h' \<noteq> h" by auto
      with e' have "\<not> has_handle h e'" by simp
      with Some p Cons.prems(1) show ?thesis by simp
    qed
    from Cons.prems(2) Suc have 1: "j' < length xs" by simp
    from Cons.prems(3) Suc have 2: "offer (Suc i + j') (xs ! j') = Some (h, e)" by simp
    have 3: "\<forall>k<j'. \<forall>e'. offer (Suc i + k) (xs ! k) \<noteq> Some (h, e')"
    proof (intro allI impI)
      fix k e' assume "k < j'"
      with Suc have "Suc k < j" by simp
      with Cons.prems(4) have "offer (i + Suc k) ((x # xs) ! Suc k) \<noteq> Some (h, e')" by blast
      then show "offer (Suc i + k) (xs ! k) \<noteq> Some (h, e')" by simp
    qed
    from Cons.IH [OF same 1 2 3] show ?thesis by simp
  qed
qed

lemma cut_at_includes: "sep \<noteq> [] \<Longrightarrow> js_includes s sep \<Longrightarrow> cut_at sep s \<noteq> None"
  by (induction s) (auto split: option.splits)

lemma js_split_nonempty: "sep \<noteq> [] \<Longrightarrow> js_split s sep \<noteq> []"
  by (subst js_split.simps) (simp split: option.splits)

lemma js_split_second: "sep \<noteq> [] \<Longrightarrow> js_includes s sep \<Longrightarrow> 1 < length (js_split s sep)"
proof -
  assume sep: "sep \<noteq> []" and "js_includes s sep"
  then obtain b a where "cut_at sep s = Some (b, a)"
    using cut_at_includes by fastforce
  with sep have "js_split s sep = b # js_split a sep"
    by (subst js_split.simps) simp
  moreover from sep have "js_split a sep \<noteq> []" by (rule js_split_nonempty)
  ultimately show ?thesis by (cases "js_split a sep") auto
qed

lemma collectionOffer_handle: "collectionOffer url i x = Some (h, e) \<Longrightarrow> has_handle h e"
  by (auto simp: collectionOffer_def split: option.splits if_splits)

lemma blogOffer_handle: "blogOffer url i x = Some (h, e) \<Longrightarrow> has_handle h e"
  by (auto simp: blogOffer_def split: option.splits if_splits)

lemma collectionLink_offer:
  assumes "a_href_contains ''/collections/'' el"
  shows "collectionLink url i el found =
     Inr (case collectionOffer url i el of
            None \<Rightarrow> found
          | Some (h, e) \<Rightarrow> if find (has_handle h) found = None then found @ [e] else found)"
proof -
  from assms obtain href where href: "attr el ''href'' = Some href" "js_includes href ''/collections/''"
    by (auto simp: a_href_contains_def split: option.splits)
  from href(2) have "1 < length (js_split href ''/collections/'')"
    by (intro js_split_second) simp_all
  then obtain rest where rest: "nth_opt (js_split href ''/collections/'') 1 = Some rest"
    by (simp add: nth_opt_def)
  show ?thesis
    using href(1) rest
    by (simp add: collectionLink_def collectionOffer_def collection_handle_def link_url_def Let_def
        split: option.splits)
qed

lemma blogLink_offer:
  "blogLink url i el found =
     (case blogOffer url i el of
        None \<Rightarrow> found
      | Some (h, e) \<Rightarrow> if find (has_handle h) found = None then found @ [e] else found)"
  by (auto simp: blogLink_def blogOffer_def blog_handle_def link_url_def Let_def split: option.splits)

lemma scanCollectionLinks_keep_first:
  assumes "\<forall>el\<in>set els. a_href_contains ''/collections/'' el"
  shows "scanCollectionLinks url i els found = Inr (keep_first (collectionOffer url) i els found)"
  using assms by (induction els arbitrary: i found) (simp_all add: collectionLink_offer)

lemma scanBlogLinks_keep_first:
  "scanBlogLinks url i els found = keep_first (blogOffer url) i els found"
  by (induction els arbitrary: i found) (simp_all add: blogLink_offer)

lemma scrapeCollections_keep_first:
  assumes "axios_get env CollectionsPage (url @ ''/collections'') = Some page"
    and "cheerio_load env page = Some doc"
  shows "scrapeCollections env url =
     JArr (keep_first (collectionOffer url) 0 (select (a_href_contains ''/collections/'') doc) [])"
proof -
  have "\<forall>el\<in>set (select (a_href_contains ''/collections/'') doc). a_href_contains ''/collections/'' el"
    by (simp add: select_def)
  from scanCollectionLinks_keep_first [OF this] assms show ?thesis
    by (simp add: scrapeCollections_def)
qed

lemma scrapeBlogs_keep_first:
  assumes "axios_get env HomepageLinks url = Some page"
    and "cheerio_load env page = Some doc"
  shows "scrapeBlogs env url =
     JArr (keep_first (blogOffer url) 0 (select (a_href_contains ''/blogs/'') doc) [])"
  using assms by (simp add: scrapeBlogs_def scanBlogLinks_keep_first)

lemma collectionOffer_iff:
  "collectionOffer url i el = Some (h, e) \<longleftrightarrow>
     collection_handle el = Some h \<and> trim (node_text el) \<noteq> [] \<and>
     e = JObj [(''id'', JStr (digits i)), (''handle'', JStr h),
               (''title'', JStr (trim (node_text el))), (''url'', JStr (link_url url el))]"
  by (auto simp: collectionOffer_def split: option.splits)

lemma blogOffer_iff:
  "blogOffer url i el = Some (h, e) \<longleftrightarrow>
     blog_handle el = Some h \<and> trim (node_text el) \<noteq> [] \<and>
     e = JObj [(''id'', JStr (''blog_'' @ digits i)), (''handle'', JStr h),
               (''title'', JStr (trim (node_text el))), (''url'', JStr (link_url url el))]"
  by (auto simp: blogOffer_def split: option.splits)

lemma link_url_href:
  "attr el ''href'' = Some href \<Longrightarrow>
     link_url url el = (if startsWith href ''http'' then href else url @ href)"
  by (simp add: link_url_def)

lemma fetchCollections_fallback:
  assumes "axios_get env CollectionsJson (url @ ''/collections.json'') = None"
    and "axios_get env CollectionsPage (url @ ''/collections'') = Some page"
    and "cheerio_load env page = Some doc"
  shows "fetchCollections env url =
     Inr (JArr (keep_first (collectionOffer url) 0 (select (a_href_contains ''/collections/'') doc) []))"
  using assms by (simp add: fetchCollections_def scrapeCollections_keep_first)

lemma fetchBlogs_fallback:
  assumes "axios_get env BlogsJson (url @ ''/blogs.json'') = None"
    and "axios_get env HomepageLinks url = Some page"
    and "cheerio_load env page = Some doc"
  shows "fetchBlogs env url =
     JArr (keep_first (blogOffer url) 0 (select (a_href_contains ''/blogs/'') doc) [])"
  using assms by (simp add: fetchBlogs_def scrapeBlogs_keep_first)

lemma collection_entry_of_first_titled:
  assumes "j < length anchors"
    and "collection_handle (anchors ! j) = Some h"
    and "attr (anchors ! j) ''href'' = Some href"
    and "trim (node_text (anchors ! j)) \<noteq> []"
    and "\<forall>k<j. collection_handle (anchors ! k) = Some h \<longrightarrow> trim (node_text (anchors ! k)) = []"
  shows "filter (has_handle h) (keep_first (collectionOffer url) 0 anchors []) =
     [JObj [(''id'', JStr (digits j)), (''handle'', JStr h),
            (''title'', JStr (trim (node_text (anchors ! j)))),
            (''url'', JStr (if startsWith href ''http'' then href else url @ href))]]"
proof (rule keep_first_first [where j = j])
  show "\<And>i x h e. collectionOffer url i x = Some (h, e) \<Longrightarrow> has_handle h e"
    by (rule collectionOffer_handle)
  show "filter (has_handle h) [] = []" by simp
  show "j < length anchors" by (rule assms(1))
  show "collectionOffer url (0 + j) (anchors ! j) =
      Some (h, JObj [(''id'', JStr (digits j)), (''handle'', JStr h),
            (''title'', JStr (trim (node_text (anchors ! j)))),
            (''url'', JStr (if startsWith href ''http'' then href else url @ href))])"
    using assms(2-4) by (simp add: collectionOffer_iff link_url_href)
  show "\<forall>j'<j. \<forall>e'. collectionOffer url (0 + j') (anchors ! j') \<noteq> Some (h, e')"
    using assms(5) by (auto simp: collectionOffer_iff)
qed

lemma blog_entry_of_first_titled:
  assumes "j < length anchors"
    and "blog_handle (anchors ! j) = Some h"
    and "attr (anchors ! j) ''href'' = Some href"
    and "trim (node_text (anchors ! j)) \<noteq> []"
    and "\<forall>k<j. blog_handle (anchors ! k) = Some h \<longrightarrow> trim (node_text (anchors ! k)) = []"
  shows "filter (has_handle h) (keep_first (blogOffer url) 0 anchors []) =
     [JObj [(''id'', JStr (''blog_'' @ digits j)), (''handle'', JStr h),
            (''title'', JStr (trim (node_text (anchors ! j)))),
            (''url'', JStr (if startsWith href ''http'' then href else url @ href))]]"
proof (rule keep_first_first [where j = j])
  show "\<And>i x h e. blogOffer url i x = Some (h, e) \<Longrightarrow> has_handle h e"
    by (rule blogOffer_handle)
  show "filter (has_handle h) [] = []" by simp
  show "j < length anchors" by (rule assms(1))
  show "blogOffer url (0 + j) (anchors ! j) =
      Some (h, JObj [(''id'', JStr (''blog_'' @ digits j)), (''handle'', JStr h),
            (''title'', JStr (trim (node_text (anchors ! j)))),
            (''url'', JStr (if startsWith href ''http'' then href else url @ href))])"
    using assms(2-4) by (simp add: blogOffer_iff link_url_href)
  show "\<forall>j'<j. \<forall>e'. blogOffer url (0 + j') (anchors ! j') \<noteq> Some (h, e')"
    using assms(5) by (auto simp: blogOffer_iff)
qed

lemma collection_entry_of_none_titled:
  assumes "\<forall>k<length anchors. collection_handle (anchors ! k) = Some h \<longrightarrow> trim (node_text (anchors ! k)) = []"
  shows "filter (has_handle h) (keep_first (collectionOffer url) 0 anchors []) = []"
  using assms by (intro keep_first_none) (auto simp: collectionOffer_iff collectionOffer_handle)

lemma blog_entry_of_none_titled:
  assumes "\<forall>k<length anchors. blog_handle (anchors ! k) = Some h \<longrightarrow> trim (node_text (anchors ! k)) = []"
  shows "filter (has_handle h) (keep_first (blogOffer url) 0 anchors []) = []"
  using assms by (intro keep_first_none) (auto simp: blogOffer_iff blogOffer_handle)

lemma collection_anchors:
  "select (a_href_contains ''/collections/'') collections_markup =
     [Element ''a'' [(''href'', ''/collections/hats'')] [Element ''img'' [(''src'', ''hats.png'')] []],
      Element ''a'' [(''href'', ''/collections/hats/'')] [Text '' Hats ''],
      Element ''a'' [(''href'', ''https://shop.example/collections/hats/new'')] [Text ''New hats''],
      Element ''a'' [(''href'', ''/collections/shoes'')] [Text ''Shoes''],
      Element ''a'' [(''href'', ''/collections/gloves'')] [Element ''img'' [(''src'', ''gloves.png'')] []]]"
  by (simp add: select_def collections_markup_def a_href_contains_def)

lemma blog_anchors:
  "select (a_href_contains ''/blogs/'') homepage_markup =
     [Element ''a'' [(''href'', ''/blogs/news'')] [Element ''img'' [(''src'', ''news.png'')] []],
      Element ''a'' [(''href'', ''/blogs/news/welcome'')] [Text ''Welcome post''],
      Element ''a'' [(''href'', ''/blogs/news'')] [Text ''News''],
      Element ''a'' [(''href'', ''/blogs/tips'')] [Element ''img'' [(''src'', ''tips.png'')] []]]"
  by (simp add: select_def homepage_markup_def a_href_contains_def)

lemma handle_hats_0: "collection_handle (Element ''a'' [(''href'', ''/collections/hats'')] cs) = Some ''hats''"
  by (simp add: collection_handle_def js_split.simps nth_opt_def)

lemma handle_hats_1: "collection_handle (Element ''a'' [(''href'', ''/collections/hats/'')] cs) = Some ''hats''"
  by (simp add: collection_handle_def js_split.simps nth_opt_def)

lemma handle_news_0: "blog_handle (Element ''a'' [(''href'', ''/blogs/news'')] cs) = Some ''news''"
  by (simp add: blog_handle_def js_split.simps nth_opt_def Let_def)

lemma handle_news_1: "blog_handle (Element ''a'' [(''href'', ''/blogs/news/welcome'')] cs) = Some ''news''"
  by (simp add: blog_handle_def js_split.simps nth_opt_def Let_def)

lemma duplicate_links_collections:
  "axios_get duplicate_links CollectionsJson ''https://shop.example/collections.json'' = None"
  "axios_get duplicate_links CollectionsPage ''https://shop.example/collections'' =
     Some (JStr ''<ul>collection links</ul>'')"
  "cheerio_load duplicate_links (JStr ''<ul>collection links</ul>'') = Some collections_markup"
  by (simp_all add: duplicate_links_def shop_def)

lemma duplicate_links_blogs:
  "axios_get duplicate_links BlogsJson ''https://shop.example/blogs.json'' = None"
  "axios_get duplicate_links HomepageLinks ''https://shop.example'' = Some (JStr ''<nav>blog links</nav>'')"
  "cheerio_load duplicate_links (JStr ''<nav>blog links</nav>'') = Some homepage_markup"
  by (simp_all add: duplicate_links_def shop_def)

lemma handle_other:
  "collection_handle (Element ''a'' [(''href'', ''https://shop.example/collections/hats/new'')] cs) = Some ''hats''"
  "collection_handle (Element ''a'' [(''href'', ''/collections/shoes'')] cs) = Some ''shoes''"
  "collection_handle (Element ''a'' [(''href'', ''/collections/gloves'')] cs) = Some ''gloves''"
  "blog_handle (Element ''a'' [(''href'', ''/blogs/tips'')] cs) = Some ''tips''"
  by (simp_all add: collection_handle_def blog_handle_def js_split.simps nth_opt_def Let_def)

text \<open>
  C5, as amended. In the fallback of \<^verbatim>\<open>fetchCollections\<close> and of \<^verbatim>\<open>fetchBlogs\<close>, among the
  anchors of the selection that yield one handle, the first whose trimmed text is not
  empty gives the only entry for that handle: its \<^verbatim>\<open>id\<close> is the place of that anchor
  in the selection, its \<^verbatim>\<open>title\<close> the trimmed text and its \<^verbatim>\<open>url\<close> the anchor's
  \<^verbatim>\<open>href\<close>, made absolute. Anchors before it that yield the handle with an empty text are
  passed over, and when every such anchor has an empty text the list has no entry for
  the handle.
\<close>

theorem fallback_keeps_first_titled_anchor:
  "(axios_get env CollectionsJson (url @ ''/collections.json'') = None \<and>
    axios_get env CollectionsPage (url @ ''/collections'') = Some page \<and>
    cheerio_load env page = Some doc \<and>
    anchors = select (a_href_contains ''/collections/'') doc \<and>
    j < length anchors \<and>
    collection_handle (anchors ! j) = Some h \<and>
    attr (anchors ! j) ''href'' = Some href \<and>
    trim (node_text (anchors ! j)) \<noteq> [] \<and>
    (\<forall>k<j. collection_handle (anchors ! k) = Some h \<longrightarrow> trim (node_text (anchors ! k)) = []) \<longrightarrow>
    (\<exists>cs. fetchCollections env url = Inr (JArr cs) \<and>
       filter (\<lambda>c. field c ''handle'' = Some (JStr h)) cs =
         [JObj [(''id'', JStr (digits j)), (''handle'', JStr h),
                (''title'', JStr (trim (node_text (anchors ! j)))),
                (''url'', JStr (if startsWith href ''http'' then href else url @ href))]])) \<and>
   (axios_get env CollectionsJson (url @ ''/collections.json'') = None \<and>
    axios_get env CollectionsPage (url @ ''/collections'') = Some page \<and>
    cheerio_load env page = Some doc \<and>
    anchors = select (a_href_contains ''/collections/'') doc \<and>
    (\<forall>k<length anchors. collection_handle (anchors ! k) = Some h \<longrightarrow> trim (node_text (anchors ! k)) = []) \<longrightarrow>
    (\<exists>cs. fetchCollections env url = Inr (JArr cs) \<and>
       filter (\<lambda>c. field c ''handle'' = Some (JStr h)) cs = [])) \<and>
   (axios_get env BlogsJson (url @ ''/blogs.json'') = None \<and>
    axios_get env HomepageLinks url = Some page \<and>
    cheerio_load env page = Some doc \<and>
    anchors = select (a_href_contains ''/blogs/'') doc \<and>
    j < length anchors \<and>
    blog_handle (anchors ! j) = Some h \<and>
    attr (anchors ! j) ''href'' = Some href \<and>
    trim (node_text (anchors ! j)) \<noteq> [] \<and>
    (\<forall>k<j. blog_handle (anchors ! k) = Some h \<longrightarrow> trim (node_text (anchors ! k)) = []) \<longrightarrow>
    (\<exists>bs. fetchBlogs env url = JArr bs \<and>
       filter (\<lambda>b. field b ''handle'' = Some (JStr h)) bs =
         [JObj [(''id'', JStr (''blog_'' @ digits j)), (''handle'', JStr h),
                (''title'', JStr (trim (node_text (anchors ! j)))),
                (''url'', JStr (if startsWith href ''http'' then href else url @ href))]])) \<and>
   (axios_get env BlogsJson (url @ ''/blogs.json'') = None \<and>
    axios_get env HomepageLinks url = Some page \<and>
    cheerio_load env page = Some doc \<and>
    anchors = select (a_href_contains ''/blogs/'') doc \<and>
    (\<forall>k<length anchors. blog_handle (anchors ! k) = Some h \<longrightarrow> trim (node_text (anchors ! k)) = []) \<longrightarrow>
    (\<exists>bs. fetchBlogs env url = JArr bs \<and>
       filter (\<lambda>b. field b ''handle'' = Some (JStr h)) bs = []))"
proof (intro conjI impI)
  assume a: "axios_get env CollectionsJson (url @ ''/collections.json'') = None \<and>
    axios_get env CollectionsPage (url @ ''/collections'') = Some page \<and>
    cheerio_load env page = Some doc \<and>
    anchors = select (a_href_contains ''/collections/'') doc \<and>
    j < length anchors \<and>
    collection_handle (anchors ! j) = Some h \<and>
    attr (anchors ! j) ''href'' = Some href \<and>
    trim (node_text (anchors ! j)) \<noteq> [] \<and>
    (\<forall>k<j. collection_handle (anchors ! k) = Some h \<longrightarrow> trim (node_text (anchors ! k)) = [])"
  then have p: "axios_get env CollectionsJson (url @ ''/collections.json'') = None"
    "axios_get env CollectionsPage (url @ ''/collections'') = Some page"
    "cheerio_load env page = Some doc"
    and q: "anchors = select (a_href_contains ''/collections/'') doc"
    and r: "j < length anchors" "collection_handle (anchors ! j) = Some h"
    "attr (anchors ! j) ''href'' = Some href" "trim (node_text (anchors ! j)) \<noteq> []"
    "\<forall>k<j. collection_handle (anchors ! k) = Some h \<longrightarrow> trim (node_text (anchors ! k)) = []"
    by blast+
  from fetchCollections_fallback [OF p] q
  have "fetchCollections env url = Inr (JArr (keep_first (collectionOffer url) 0 anchors []))"
    by simp
  with collection_entry_of_first_titled [OF r, of url]
  show "\<exists>cs. fetchCollections env url = Inr (JArr cs) \<and>
       filter (\<lambda>c. field c ''handle'' = Some (JStr h)) cs =
         [JObj [(''id'', JStr (digits j)), (''handle'', JStr h),
                (''title'', JStr (trim (node_text (anchors ! j)))),
                (''url'', JStr (if startsWith href ''http'' then href else url @ href))]]"
    by blast
next
  assume a: "axios_get env CollectionsJson (url @ ''/collections.json'') = None \<and>
    axios_get env CollectionsPage (url @ ''/collections'') = Some page \<and>
    cheerio_load env page = Some doc \<and>
    anchors = select (a_href_contains ''/collections/'') doc \<and>
    (\<forall>k<length anchors. collection_handle (anchors ! k) = Some h \<longrightarrow> trim (node_text (anchors ! k)) = [])"
  then have p: "axios_get env CollectionsJson (url @ ''/collections.json'') = None"
    "axios_get env CollectionsPage (url @ ''/collections'') = Some page"
    "cheerio_load env page = Some doc"
    and q: "anchors = select (a_href_contains ''/collections/'') doc"
    and r: "\<forall>k<length anchors. collection_handle (anchors ! k) = Some h \<longrightarrow> trim (node_text (anchors ! k)) = []"
    by blast+
  from fetchCollections_fallback [OF p] q
  have "fetchCollections env url = Inr (JArr (keep_first (collectionOffer url) 0 anchors []))"
    by simp
  with collection_entry_of_none_titled [OF r, of url]
  show "\<exists>cs. fetchCollections env url = Inr (JArr cs) \<and>
       filter (\<lambda>c. field c ''handle'' = Some (JStr h)) cs = []"
    by blast
next
  assume a: "axios_get env BlogsJson (url @ ''/blogs.json'') = None \<and>
    axios_get env HomepageLinks url = Some page \<and>
    cheerio_load env page = Some doc \<and>
    anchors = select (a_href_contains ''/blogs/'') doc \<and>
    j < length anchors \<and>
    blog_handle (anchors ! j) = Some h \<and>
    attr (anchors ! j) ''href'' = Some href \<and>
    trim (node_text (anchors ! j)) \<noteq> [] \<and>
    (\<forall>k<j. blog_handle (anchors ! k) = Some h \<longrightarrow> trim (node_text (anchors ! k)) = [])"
  then have p: "axios_get env BlogsJson (url @ ''/blogs.json'') = None"
    "axios_get env HomepageLinks url = Some page"
    "cheerio_load env page = Some doc"
    and q: "anchors = select (a_href_contains ''/blogs/'') doc"
    and r: "j < length anchors" "blog_handle (anchors ! j) = Some h"
    "attr (anchors ! j) ''href'' = Some href" "trim (node_text (anchors ! j)) \<noteq> []"
    "\<forall>k<j. blog_handle (anchors ! k) = Some h \<longrightarrow> trim (node_text (anchors ! k)) = []"
    by blast+
  from fetchBlogs_fallback [OF p] q
  have "fetchBlogs env url = JArr (keep_first (blogOffer url) 0 anchors [])"
    by simp
  with blog_entry_of_first_titled [OF r, of url]
  show "\<exists>bs. fetchBlogs env url = JArr bs \<and>
       filter (\<lambda>b. field b ''handle'' = Some (JStr h)) bs =
         [JObj [(''id'', JStr (''blog_'' @ digits j)), (''handle'', JStr h),
                (''title'', JStr (trim (node_text (anchors ! j)))),
                (''url'', JStr (if startsWith href ''http'' then href else url @ href))]]"
    by blast
next
  assume a: "axios_get env BlogsJson (url @ ''/blogs.json'') = None \<and>
    axios_get env HomepageLinks url = Some page \<and>
    cheerio_load env page = Some doc \<and>
    anchors = select (a_href_contains ''/blogs/'') doc \<and>
    (\<forall>k<length anchors. blog_handle (anchors ! k) = Some h \<longrightarrow> trim (node_text (anchors ! k)) = [])"
  then have p: "axios_get env BlogsJson (url @ ''/blogs.json'') = None"
    "axios_get env HomepageLinks url = Some page"
    "cheerio_load env page = Some doc"
    and q: "anchors = select (a_href_contains ''/blogs/'') doc"
    and r: "\<forall>k<length anchors. blog_handle (anchors ! k) = Some h \<longrightarrow> trim (node_text (anchors ! k)) = []"
    by blast+
  from fetchBlogs_fallback [OF p] q
  have "fetchBlogs env url = JArr (keep_first (blogOffer url) 0 anchors [])"
    by simp
  with blog_entry_of_none_titled [OF r, of url]
  show "\<exists>bs. fetchBlogs env url = JArr bs \<and>
       filter (\<lambda>b. field b ''handle'' = Some (JStr h)) bs = []"
    by blast
qed

theorem fallback_keeps_first_titled_anchor_witness:
  "\<exists>cs bs.
     fetchCollections duplicate_links ''https://shop.example'' = Inr (JArr cs) \<and>
     filter (\<lambda>c. field c ''handle'' = Some (JStr ''hats'')) cs =
       [JObj [(''id'', JStr ''1''), (''handle'', JStr ''hats''), (''title'', JStr ''Hats''),
              (''url'', JStr ''https://shop.example/collections/hats/'')]] \<and>
     filter (\<lambda>c. field c ''handle'' = Some (JStr ''gloves'')) cs = [] \<and>
     fetchBlogs duplicate_links ''https://shop.example'' = JArr bs \<and>
     filter (\<lambda>b. field b ''handle'' = Some (JStr ''news'')) bs =
       [JObj [(''id'', JStr ''blog_1''), (''handle'', JStr ''news''), (''title'', JStr ''Welcome post''),
              (''url'', JStr ''https://shop.example/blogs/news/welcome'')]] \<and>
     filter (\<lambda>b. field b ''handle'' = Some (JStr ''tips'')) bs = []"
proof -
  let ?cas = "select (a_href_contains ''/collections/'') collections_markup"
  let ?bas = "select (a_href_contains ''/blogs/'') homepage_markup"
  note thm1 = fallback_keeps_first_titled_anchor [where env = duplicate_links
      and url = "''https://shop.example''" and page = "JStr ''<ul>collection links</ul>''"
      and doc = collections_markup and anchors = ?cas and j = 1 and h = "''hats''"
      and href = "''/collections/hats/''", THEN conjunct1]
  note thm2 = fallback_keeps_first_titled_anchor [where env = duplicate_links
      and url = "''https://shop.example''" and page = "JStr ''<ul>collection links</ul>''"
      and doc = collections_markup and anchors = ?cas and h = "''gloves''",
      THEN conjunct2, THEN conjunct1]
  note thm3 = fallback_keeps_first_titled_anchor [where env = duplicate_links
      and url = "''https://shop.example''" and page = "JStr ''<nav>blog links</nav>''"
      and doc = homepage_markup and anchors = ?bas and j = 1 and h = "''news''"
      and href = "''/blogs/news/welcome''", THEN conjunct2, THEN conjunct2, THEN conjunct1]
  note thm4 = fallback_keeps_first_titled_anchor [where env = duplicate_links
      and url = "''https://shop.example''" and page = "JStr ''<nav>blog links</nav>''"
      and doc = homepage_markup and anchors = ?bas and h = "''tips''",
      THEN conjunct2, THEN conjunct2, THEN conjunct2]
  have 1: "\<exists>cs. fetchCollections duplicate_links ''https://shop.example'' = Inr (JArr cs) \<and>
       filter (\<lambda>c. field c ''handle'' = Some (JStr ''hats'')) cs =
         [JObj [(''id'', JStr ''1''), (''handle'', JStr ''hats''), (''title'', JStr ''Hats''),
              (''url'', JStr ''https://shop.example/collections/hats/'')]]"
    using thm1
    by (simp add: duplicate_links_collections collection_anchors handle_hats_0 handle_hats_1
        trim_def is_space_def startsWith_def digits.simps digit_char_def)
  have 2: "\<exists>cs. fetchCollections duplicate_links ''https://shop.example'' = Inr (JArr cs) \<and>
       filter (\<lambda>c. field c ''handle'' = Some (JStr ''gloves'')) cs = []"
    using thm2
    by (simp add: duplicate_links_collections collection_anchors handle_hats_0 handle_hats_1
        handle_other trim_def All_less_Suc)
  have 3: "\<exists>bs. fetchBlogs duplicate_links ''https://shop.example'' = JArr bs \<and>
       filter (\<lambda>b. field b ''handle'' = Some (JStr ''news'')) bs =
         [JObj [(''id'', JStr ''blog_1''), (''handle'', JStr ''news''), (''title'', JStr ''Welcome post''),
              (''url'', JStr ''https://shop.example/blogs/news/welcome'')]]"
    using thm3
    by (simp add: duplicate_links_blogs blog_anchors handle_news_0 handle_news_1
        trim_def is_space_def startsWith_def digits.simps digit_char_def)
  have 4: "\<exists>bs. fetchBlogs duplicate_links ''https://shop.example'' = JArr bs \<and>
       filter (\<lambda>b. field b ''handle'' = Some (JStr ''tips'')) bs = []"
    using thm4
    by (simp add: duplicate_links_blogs blog_anchors handle_news_0 handle_news_1
        handle_other trim_def All_less_Suc)
  from 1 2 3 4 show ?thesis by auto
qed

text \<open>
  The claim as first stated fails on a page whose first anchor for a handle holds an image
  and no text: the entry comes from the second anchor.
\<close>

theorem first_anchor_counterexample:
  "collection_handle (select (a_href_contains ''/collections/'') collections_markup ! 0) = Some ''hats'' \<and>
   attr (select (a_href_contains ''/collections/'') collections_markup ! 0) ''href'' =
     Some ''/collections/hats'' \<and>
   trim (node_text (select (a_href_contains ''/collections/'') collections_markup ! 0)) = [] \<and>
   fetchCollections duplicate_links ''https://shop.example'' =
     Inr (JArr [JObj [(''id'', JStr ''1''), (''handle'', JStr ''hats''), (''title'', JStr ''Hats''),
                      (''url'', JStr ''https://shop.example/collections/hats/'')],
                JObj [(''id'', JStr ''3''), (''handle'', JStr ''shoes''), (''title'', JStr ''Shoes''),
                      (''url'', JStr ''https://shop.example/collections/shoes'')]]) \<and>
   blog_handle (select (a_href_contains ''/blogs/'') homepage_markup ! 0) = Some ''news'' \<and>
   attr (select (a_href_contains ''/blogs/'') homepage_markup ! 0) ''href'' = Some ''/blogs/news'' \<and>
   trim (node_text (select (a_href_contains ''/blogs/'') homepage_markup ! 0)) = [] \<and>
   fetchBlogs duplicate_links ''https://shop.example'' =
     JArr [JObj [(''id'', JStr ''blog_1''), (''handle'', JStr ''news''), (''title'', JStr ''Welcome post''),
                 (''url'', JStr ''https://shop.example/blogs/news/welcome'')]]"
proof (intro conjI)
  show "collection_handle (select (a_href_contains ''/collections/'') collections_markup ! 0) = Some ''hats''"
    by (simp add: collection_anchors handle_hats_0)
  show "attr (select (a_href_contains ''/collections/'') collections_markup ! 0) ''href'' =
     Some ''/collections/hats''"
    by (simp add: collection_anchors)
  show "trim (node_text (select (a_href_contains ''/collections/'') collections_markup ! 0)) = []"
    by (simp add: collection_anchors trim_def)
  show "fetchCollections duplicate_links ''https://shop.example'' =
     Inr (JArr [JObj [(''id'', JStr ''1''), (''handle'', JStr ''hats''), (''title'', JStr ''Hats''),
                      (''url'', JStr ''https://shop.example/collections/hats/'')],
                JObj [(''id'', JStr ''3''), (''handle'', JStr ''shoes''), (''title'', JStr ''Shoes''),
                      (''url'', JStr ''https://shop.example/collections/shoes'')]])"
    by (simp add: fetchCollections_def scrapeCollections_def duplicate_links_def shop_def
        collection_anchors collectionLink_def js_split.simps nth_opt_def trim_def is_space_def
        startsWith_def digits.simps digit_char_def)
  show "blog_handle (select (a_href_contains ''/blogs/'') homepage_markup ! 0) = Some ''news''"
    by (simp add: blog_anchors handle_news_0)
  show "attr (select (a_href_contains ''/blogs/'') homepage_markup ! 0) ''href'' = Some ''/blogs/news''"
    by (simp add: blog_anchors)
  show "trim (node_text (select (a_href_contains ''/blogs/'') homepage_markup ! 0)) = []"
    by (simp add: blog_anchors trim_def)
  show "fetchBlogs duplicate_links ''https://shop.example'' =
     JArr [JObj [(''id'', JStr ''blog_1''), (''handle'', JStr ''news''), (''title'', JStr ''Welcome post''),
                 (''url'', JStr ''https://shop.example/blogs/news/welcome'')]]"
    by (simp add: fetchBlogs_def scrapeBlogs_def duplicate_links_def shop_def
        blog_anchors blogLink_def js_split.simps nth_opt_def trim_def is_space_def
        startsWith_def digits.simps digit_char_def Let_def)
qed

text \<open>
  C10. In both fallbacks, when the first anchor that yields a handle has an empty trimmed
  text and a later anchor with the same handle is the first whose text is not empty, the
  list has one entry for the handle, taken from that later anchor, and its \<^verbatim>\<open>id\<close> is
  made from the place \<open>j\<close> of that anchor in the selection (\<open>j > 0\<close>), not from the
  place of the entry in the list.
\<close>

theorem fallback_skips_untitled_first_anchor:
  "(axios_get env CollectionsJson (url @ ''/collections.json'') = None \<and>
    axios_get env CollectionsPage (url @ ''/collections'') = Some page \<and>
    cheerio_load env page = Some doc \<and>
    anchors = select (a_href_contains ''/collections/'') doc \<and>
    i < j \<and> j < length anchors \<and>
    collection_handle (anchors ! i) = Some h \<and>
    (\<forall>k<i. collection_handle (anchors ! k) \<noteq> Some h) \<and>
    trim (node_text (anchors ! i)) = [] \<and>
    collection_handle (anchors ! j) = Some h \<and>
    attr (anchors ! j) ''href'' = Some href \<and>
    trim (node_text (anchors ! j)) \<noteq> [] \<and>
    (\<forall>k. i < k \<and> k < j \<and> collection_handle (anchors ! k) = Some h \<longrightarrow>
         trim (node_text (anchors ! k)) = []) \<longrightarrow>
    (\<exists>cs. fetchCollections env url = Inr (JArr cs) \<and>
       filter (\<lambda>c. field c ''handle'' = Some (JStr h)) cs =
         [JObj [(''id'', JStr (digits j)), (''handle'', JStr h),
                (''title'', JStr (trim (node_text (anchors ! j)))),
                (''url'', JStr (if startsWith href ''http'' then href else url @ href))]])) \<and>
   (axios_get env BlogsJson (url @ ''/blogs.json'') = None \<and>
    axios_get env HomepageLinks url = Some page \<and>
    cheerio_load env page = Some doc \<and>
    anchors = select (a_href_contains ''/blogs/'') doc \<and>
    i < j \<and> j < length anchors \<and>
    blog_handle (anchors ! i) = Some h \<and>
    (\<forall>k<i. blog_handle (anchors ! k) \<noteq> Some h) \<and>
    trim (node_text (anchors ! i)) = [] \<and>
    blog_handle (anchors ! j) = Some h \<and>
    attr (anchors ! j) ''href'' = Some href \<and>
    trim (node_text (anchors ! j)) \<noteq> [] \<and>
    (\<forall>k. i < k \<and> k < j \<and> blog_handle (anchors ! k) = Some h \<longrightarrow>
         trim (node_text (anchors ! k)) = []) \<longrightarrow>
    (\<exists>bs. fetchBlogs env url = JArr bs \<and>
       filter (\<lambda>b. field b ''handle'' = Some (JStr h)) bs =
         [JObj [(''id'', JStr (''blog_'' @ digits j)), (''handle'', JStr h),
                (''title'', JStr (trim (node_text (anchors ! j)))),
                (''url'', JStr (if startsWith href ''http'' then href else url @ href))]]))"
proof (intro conjI impI)
  assume "axios_get env CollectionsJson (url @ ''/collections.json'') = None \<and>
    axios_get env CollectionsPage (url @ ''/collections'') = Some page \<and>
    cheerio_load env page = Some doc \<and>
    anchors = select (a_href_contains ''/collections/'') doc \<and>
    i < j \<and> j < length anchors \<and>
    collection_handle (anchors ! i) = Some h \<and>
    (\<forall>k<i. collection_handle (anchors ! k) \<noteq> Some h) \<and>
    trim (node_text (anchors ! i)) = [] \<and>
    collection_handle (anchors ! j) = Some h \<and>
    attr (anchors ! j) ''href'' = Some href \<and>
    trim (node_text (anchors ! j)) \<noteq> [] \<and>
    (\<forall>k. i < k \<and> k < j \<and> collection_handle (anchors ! k) = Some h \<longrightarrow>
         trim (node_text (anchors ! k)) = [])"
  then have p: "axios_get env CollectionsJson (url @ ''/collections.json'') = None"
    "axios_get env CollectionsPage (url @ ''/collections'') = Some page"
    "cheerio_load env page = Some doc"
    and q: "anchors = select (a_href_contains ''/collections/'') doc"
    and r: "j < length anchors" "collection_handle (anchors ! j) = Some h"
    "attr (anchors ! j) ''href'' = Some href" "trim (node_text (anchors ! j)) \<noteq> []"
    and before: "\<forall>k<i. collection_handle (anchors ! k) \<noteq> Some h"
    and here: "trim (node_text (anchors ! i)) = []"
    and between: "\<forall>k. i < k \<and> k < j \<and> collection_handle (anchors ! k) = Some h \<longrightarrow>
         trim (node_text (anchors ! k)) = []"
    by blast+
  have s: "\<forall>k<j. collection_handle (anchors ! k) = Some h \<longrightarrow> trim (node_text (anchors ! k)) = []"
  proof (intro allI impI)
    fix k assume "k < j" and k: "collection_handle (anchors ! k) = Some h"
    consider "k < i" | "k = i" | "i < k" by linarith
    then show "trim (node_text (anchors ! k)) = []"
    proof cases
      case 1
      with before k show ?thesis by blast
    next
      case 2
      with here show ?thesis by simp
    next
      case 3
      with between \<open>k < j\<close> k show ?thesis by blast
    qed
  qed
  from fetchCollections_fallback [OF p] q
  have "fetchCollections env url = Inr (JArr (keep_first (collectionOffer url) 0 anchors []))"
    by simp
  with collection_entry_of_first_titled [OF r s, of url]
  show "\<exists>cs. fetchCollections env url = Inr (JArr cs) \<and>
       filter (\<lambda>c. field c ''handle'' = Some (JStr h)) cs =
         [JObj [(''id'', JStr (digits j)), (''handle'', JStr h),
                (''title'', JStr (trim (node_text (anchors ! j)))),
                (''url'', JStr (if startsWith href ''http'' then href else url @ href))]]"
    by blast
next
  assume "axios_get env BlogsJson (url @ ''/blogs.json'') = None \<and>
    axios_get env HomepageLinks url = Some page \<and>
    cheerio_load env page = Some doc \<and>
    anchors = select (a_href_contains ''/blogs/'') doc \<and>
    i < j \<and> j < length anchors \<and>
    blog_handle (anchors ! i) = Some h \<and>
    (\<forall>k<i. blog_handle (anchors ! k) \<noteq> Some h) \<and>
    trim (node_text (anchors ! i)) = [] \<and>
    blog_handle (anchors ! j) = Some h \<and>
    attr (anchors ! j) ''href'' = Some href \<and>
    trim (node_text (anchors ! j)) \<noteq> [] \<and>
    (\<forall>k. i < k \<and> k < j \<and> blog_handle (anchors ! k) = Some h \<longrightarrow>
         trim (node_text (anchors ! k)) = [])"
  then have p: "axios_get env BlogsJson (url @ ''/blogs.json'') = None"
    "axios_get env HomepageLinks url = Some page"
    "cheerio_load env page = Some doc"
    and q: "anchors = select (a_href_contains ''/blogs/'') doc"
    and r: "j < length anchors" "blog_handle (anchors ! j) = Some h"
    "attr (anchors ! j) ''href'' = Some href" "trim (node_text (anchors ! j)) \<noteq> []"
    and before: "\<forall>k<i. blog_handle (anchors ! k) \<noteq> Some h"
    and here: "trim (node_text (anchors ! i)) = []"
    and between: "\<forall>k. i < k \<and> k < j \<and> blog_handle (anchors ! k) = Some h \<longrightarrow>
         trim (node_text (anchors ! k)) = []"
    by blast+
  have s: "\<forall>k<j. blog_handle (anchors ! k) = Some h \<longrightarrow> trim (node_text (anchors ! k)) = []"
  proof (intro allI impI)
    fix k assume "k < j" and k: "blog_handle (anchors ! k) = Some h"
    consider "k < i" | "k = i" | "i < k" by linarith
    then show "trim (node_text (anchors ! k)) = []"
    proof cases
      case 1
      with before k show ?thesis by blast
    next
      case 2
      with here show ?thesis by simp
    next
      case 3
      with between \<open>k < j\<close> k show ?thesis by blast
    qed
  qed
  from fetchBlogs_fallback [OF p] q
  have "fetchBlogs env url = JArr (keep_first (blogOffer url) 0 anchors [])"
    by simp
  with blog_entry_of_first_titled [OF r s, of url]
  show "\<exists>bs. fetchBlogs env url = JArr bs \<and>
       filter (\<lambda>b. field b ''handle'' = Some (JStr h)) bs =
         [JObj [(''id'', JStr (''blog_'' @ digits j)), (''handle'', JStr h),
                (''title'', JStr (trim (node_text (anchors ! j)))),
                (''url'', JStr (if startsWith href ''http'' then href else url @ href))]]"
    by blast
qed

theorem fallback_skips_untitled_first_anchor_witness:
  "\<exists>cs bs.
     fetchCollections duplicate_links ''https://shop.example'' = Inr (JArr cs) \<and>
     filter (\<lambda>c. field c ''handle'' = Some (JStr ''hats'')) cs =
       [JObj [(''id'', JStr ''1''), (''handle'', JStr ''hats''), (''title'', JStr ''Hats''),
              (''url'', JStr ''https://shop.example/collections/hats/'')]] \<and>
     fetchBlogs duplicate_links ''https://shop.example'' = JArr bs \<and>
     filter (\<lambda>b. field b ''handle'' = Some (JStr ''news'')) bs =
       [JObj [(''id'', JStr ''blog_1''), (''handle'', JStr ''news''), (''title'', JStr ''Welcome post''),
              (''url'', JStr ''https://shop.example/blogs/news/welcome'')]]"
proof -
  let ?cas = "select (a_href_contains ''/collections/'') collections_markup"
  let ?bas = "select (a_href_contains ''/blogs/'') homepage_markup"
  note thm1 = fallback_skips_untitled_first_anchor [where env = duplicate_links
      and url = "''https://shop.example''" and page = "JStr ''<ul>collection links</ul>''"
      and doc = collections_markup and anchors = ?cas and i = 0 and j = 1 and h = "''hats''"
      and href = "''/collections/hats/''", THEN conjunct1]
  note thm2 = fallback_skips_untitled_first_anchor [where env = duplicate_links
      and url = "''https://shop.example''" and page = "JStr ''<nav>blog links</nav>''"
      and doc = homepage_markup and anchors = ?bas and i = 0 and j = 1 and h = "''news''"
      and href = "''/blogs/news/welcome''", THEN conjunct2]
  have 1: "\<exists>cs. fetchCollections duplicate_links ''https://shop.example'' = Inr (JArr cs) \<and>
       filter (\<lambda>c. field c ''handle'' = Some (JStr ''hats'')) cs =
         [JObj [(''id'', JStr ''1''), (''handle'', JStr ''hats''), (''title'', JStr ''Hats''),
              (''url'', JStr ''https://shop.example/collections/hats/'')]]"
    using thm1
    by (simp add: duplicate_links_collections collection_anchors handle_hats_0 handle_hats_1
        trim_def is_space_def startsWith_def digits.simps digit_char_def)
  have 2: "\<exists>bs. fetchBlogs duplicate_links ''https://shop.example'' = JArr bs \<and>
       filter (\<lambda>b. field b ''handle'' = Some (JStr ''news'')) bs =
         [JObj [(''id'', JStr ''blog_1''), (''handle'', JStr ''news''), (''title'', JStr ''Welcome post''),
              (''url'', JStr ''https://shop.example/blogs/news/welcome'')]]"
    using thm2
    by (simp add: duplicate_links_blogs blog_anchors handle_news_0 handle_news_1
        trim_def is_space_def startsWith_def digits.simps digit_char_def)
  from 1 2 show ?thesis by auto
qed

section \<open>Which links become collections\<close>

text \<open>
  C6. The callback is to pass over product links and the catch-all collection \<^verbatim>\<open>all\<close>, and
  to take every other collection. Line 262 tests whether the \<^verbatim>\<open>href\<close> contains
  \<^verbatim>\<open>/collections/all\<close>, before line 263 works out the handle, so it passes over the
  collection \<^verbatim>\<open>all-shoes\<close> as well. On a collections page with a link to \<^verbatim>\<open>all-shoes\<close>
  and a link to \<^verbatim>\<open>hats\<close>, the first link is no product link, its handle is \<^verbatim>\<open>all-shoes\<close>
  and not \<^verbatim>\<open>all\<close>, its text is not empty and no entry has its handle; the list that
  \<^verbatim>\<open>fetchCollections\<close> returns holds \<^verbatim>\<open>hats\<close> alone.
\<close>

theorem all_shoes_link_dropped:
  "select (a_href_contains ''/collections/'') all_shoes_markup =
     [Element ''a'' [(''href'', ''/collections/all-shoes'')] [Text ''All shoes''],
      Element ''a'' [(''href'', ''/collections/hats'')] [Text ''Hats'']] \<and>
   \<not> js_includes ''/collections/all-shoes'' ''/products/'' \<and>
   js_split ''/collections/all-shoes'' ''/collections/'' = [[], ''all-shoes''] \<and>
   js_split ''all-shoes'' ''/'' = [''all-shoes''] \<and>
   ''all-shoes'' \<noteq> ''all'' \<and>
   trim ''All shoes'' = ''All shoes'' \<and>
   fetchCollections all_shoes ''https://shop.example'' =
     Inr (JArr [JObj [(''id'', JStr ''1''), (''handle'', JStr ''hats''), (''title'', JStr ''Hats''),
                      (''url'', JStr ''https://shop.example/collections/hats'')]])"
  by (simp add: select_def all_shoes_markup_def a_href_contains_def js_split.simps
      fetchCollections_def scrapeCollections_def all_shoes_def shop_def
      collectionLink_def nth_opt_def trim_def is_space_def startsWith_def digits.simps digit_char_def)

section \<open>Social links\<close>










end
